theory Spec2Isabelle
  imports Complex_Main
begin

section \<open>Cache entries and the bounded LRU store (cache\_utils.py)\<close>

text \<open>
  Python \<open>bytes\<close> are lists of characters (a \<open>char\<close> is one byte). Instants and
  durations are the \<open>float\<close> seconds of \<open>time.time()\<close>; they are modelled as reals, so
  the rounding of \<open>now + ttl\<close> is not represented. Every operation receives the
  clock reading \<open>now\<close> of the moment it runs as an argument.
\<close>

type_synonym bytes = string

text \<open>
  The dataclass \<open>CacheEntry\<close>. Its field \<open>size\<close> is named \<open>entry_size\<close> here.
  \<open>access_count\<close> is a Python number (an \<open>int\<close> when the cache wrote it, whatever
  number the metadata holds when it is read back from a file), so it is a real.
\<close>

record CacheEntry =
  data :: bytes
  expires_at :: real
  access_count :: real
  last_access :: real
  entry_size :: int

text \<open>
  An \<open>OrderedDict\<close> is an association list in insertion order, oldest first.
  \<open>d[k] = v\<close> replaces the value in place when \<open>k\<close> is present and appends
  otherwise; \<open>d.pop(k)\<close> removes the key; \<open>d.popitem(last=False)\<close> removes the head.
\<close>

type_synonym 'v ordered_dict = "(string \<times> 'v) list"

fun od_setitem :: "string \<Rightarrow> 'v \<Rightarrow> 'v ordered_dict \<Rightarrow> 'v ordered_dict" where
  "od_setitem k v [] = [(k, v)]"
| "od_setitem k v ((k', v') # d) =
     (if k' = k then (k, v) # d else (k', v') # od_setitem k v d)"

fun od_pop :: "string \<Rightarrow> 'v ordered_dict \<Rightarrow> 'v ordered_dict" where
  "od_pop k [] = []"
| "od_pop k ((k', v') # d) = (if k' = k then d else (k', v') # od_pop k d)"

text \<open>
  \<open>LRUMemoryCache\<close>: the fields \<open>_cache\<close> and \<open>_current_size\<close> are \<open>cache\<close> and
  \<open>current_size\<close>. The lock is not modelled: operations run one after another.
\<close>

record LRUMemoryCache =
  maxsize :: int
  cache :: "CacheEntry ordered_dict"
  current_size :: int

definition lru_init :: "int \<Rightarrow> LRUMemoryCache" where
  "lru_init m = \<lparr>maxsize = m, cache = [], current_size = 0\<rparr>"

definition lru_get :: "real \<Rightarrow> LRUMemoryCache \<Rightarrow> string \<Rightarrow> CacheEntry option \<times> LRUMemoryCache" where
  "lru_get now c key =
     (case map_of (cache c) key of
        None \<Rightarrow> (None, c)
      | Some entry \<Rightarrow>
          (let popped = od_pop key (cache c) in
           if now < expires_at entry then
             (let entry' = entry\<lparr>access_count := access_count entry + 1, last_access := now\<rparr>
              in (Some entry', c\<lparr>cache := od_setitem key entry' popped\<rparr>))
           else
             (None, c\<lparr>cache := popped, current_size := current_size c - entry_size entry\<rparr>)))"

text \<open>
  The eviction loop of \<open>set\<close>:
  \<open>while self._current_size + entry.size > self.maxsize and self._cache\<close>,
  each round popping the oldest item and subtracting its size.
\<close>

fun evict :: "int \<Rightarrow> int \<Rightarrow> int \<Rightarrow> CacheEntry ordered_dict \<Rightarrow> int \<times> CacheEntry ordered_dict" where
  "evict mx esz cs [] = (cs, [])"
| "evict mx esz cs ((k, e) # d) =
     (if cs + esz > mx then evict mx esz (cs - entry_size e) d else (cs, (k, e) # d))"

definition lru_set :: "LRUMemoryCache \<Rightarrow> string \<Rightarrow> CacheEntry \<Rightarrow> LRUMemoryCache" where
  "lru_set c key entry =
     (let cs0 = (case map_of (cache c) key of
                   Some old_entry \<Rightarrow> current_size c - entry_size old_entry
                 | None \<Rightarrow> current_size c);
          (cs1, d1) = evict (maxsize c) (entry_size entry) cs0 (cache c)
      in c\<lparr>cache := od_setitem key entry d1, current_size := cs1 + entry_size entry\<rparr>)"

definition lru_remove :: "LRUMemoryCache \<Rightarrow> string \<Rightarrow> LRUMemoryCache" where
  "lru_remove c key =
     (case map_of (cache c) key of
        None \<Rightarrow> c
      | Some entry \<Rightarrow> c\<lparr>cache := od_pop key (cache c),
                         current_size := current_size c - entry_size entry\<rparr>)"

text \<open>The sum of the \<open>size\<close> fields of the stored entries, and the keys in recency order.\<close>

definition total_size :: "LRUMemoryCache \<Rightarrow> int" where
  "total_size c = sum_list (map (\<lambda>(k, e). entry_size e) (cache c))"

definition keys_in_order :: "LRUMemoryCache \<Rightarrow> string list" where
  "keys_in_order c = map fst (cache c)"

text \<open>An entry as \<open>AsyncMemoryCache.set\<close> and \<open>HybridCache.set\<close> build it.\<close>

definition new_entry :: "real \<Rightarrow> real \<Rightarrow> bytes \<Rightarrow> CacheEntry" where
  "new_entry now expires d =
     \<lparr>data = d, expires_at = expires, access_count = 0, last_access = now,
      entry_size = int (length d)\<rparr>"

section \<open>Exceptions and library functions\<close>

text \<open>The exceptions the modelled code raises or catches, as values.\<close>

datatype exn =
    DownloadError
  | JSONDecodeError
  | KeyError
  | TypeError
  | ValueError
  | OverflowError
  | OtherError

text \<open>
  What \<open>json.loads\<close> returns: \<open>None\<close>, \<open>bool\<close>, numbers, \<open>str\<close>, \<open>list\<close>, \<open>dict\<close> (the
  items of the dictionary). Python's \<open>int\<close> and finite \<open>float\<close> are both \<open>JNum\<close>.
\<close>

datatype json =
    JNull
  | JBool bool
  | JNum real
  | JStr string
  | JArr "json list"
  | JObj "(string \<times> json) list"

text \<open>
  The standard-library functions the cache calls are parameters of the model:
  \<open>md5_hex k\<close> is \<open>hashlib.md5(k.encode()).hexdigest()\<close>,
  \<open>json_loads b\<close> is \<open>json.loads(b.decode())\<close> with \<open>None\<close> when it raises, and
  \<open>json_dumps j\<close> is \<open>json.dumps(j).encode()\<close>.
\<close>

record libs =
  md5_hex :: "string \<Rightarrow> string"
  json_loads :: "bytes \<Rightarrow> json option"
  json_dumps :: "json \<Rightarrow> bytes"

text \<open>\<open>int.from_bytes(b, "big")\<close> and \<open>n.to_bytes(k, "big")\<close> (for \<open>n < 256 ^ k\<close>).\<close>

definition from_bytes_big :: "bytes \<Rightarrow> nat" where
  "from_bytes_big b = foldl (\<lambda>a c. a * 256 + of_char c) 0 b"

fun to_bytes_big :: "nat \<Rightarrow> nat \<Rightarrow> bytes" where
  "to_bytes_big 0 n = []"
| "to_bytes_big (Suc k) n = to_bytes_big k (n div 256) @ [char_of (n mod 256)]"

text \<open>
  Reading a field of the metadata as a number. \<open>metadata[k]\<close> raises unless the
  metadata is a dictionary holding \<open>k\<close>, and the comparison with the clock and the
  addition of 1 raise unless the value is a number (\<open>True\<close> and \<open>False\<close> count as 1
  and 0); \<open>None\<close> stands for the exception.
\<close>

fun json_number :: "json \<Rightarrow> real option" where
  "json_number (JNum x) = Some x"
| "json_number (JBool b) = Some (if b then 1 else 0)"
| "json_number _ = None"

fun json_field_number :: "json \<Rightarrow> string \<Rightarrow> real option" where
  "json_field_number (JObj items) k =
     (case map_of items k of Some v \<Rightarrow> json_number v | None \<Rightarrow> None)"
| "json_field_number _ k = None"

section \<open>The hybrid cache (cache\_utils.py)\<close>

text \<open>
  The file tier of one cache is the map \<open>files\<close> from file names under \<open>cache_dir\<close>
  to contents. What the file system does to one call is an argument of the call:
  whether opening or reading an existing file fails (an error other than
  \<open>FileNotFoundError\<close>), whether removing an existing file fails, and whether the
  write-then-rename succeeds. A failed write leaves the temporary file absent
  (\<open>WriteFailed None\<close>: never created, or removed by the cleanup) or behind with
  some content (the cleanup failed as well).
\<close>

datatype write_outcome = Written | WriteFailed "bytes option"

record file_io =
  read_error :: bool
  remove_error :: bool
  write_result :: write_outcome

definition no_faults :: file_io where
  "no_faults = \<lparr>read_error = False, remove_error = False, write_result = Written\<rparr>"

record HybridCache =
  ttl :: real
  memory_cache :: LRUMemoryCache
  files :: "string \<Rightarrow> bytes option"

definition hybrid_init :: "real \<Rightarrow> int \<Rightarrow> HybridCache" where
  "hybrid_init t max_memory_size =
     \<lparr>ttl = t, memory_cache = lru_init max_memory_size, files = (\<lambda>name. None)\<rparr>"

text \<open>
  \<open>HybridCache.delete(key)\<close>. The key is used as it is given, for the memory store
  and as the file name: \<open>_get_file_path\<close> joins it to \<open>cache_dir\<close>, and \<open>delete\<close>
  does not call \<open>_get_md5_hash\<close>.
\<close>

definition hybrid_delete :: "file_io \<Rightarrow> HybridCache \<Rightarrow> string \<Rightarrow> bool \<times> HybridCache" where
  "hybrid_delete io h key =
     (let h1 = h\<lparr>memory_cache := lru_remove (memory_cache h) key\<rparr> in
      case files h1 key of
        None \<Rightarrow> (True, h1)
      | Some content \<Rightarrow>
          if remove_error io then (False, h1)
          else (True, h1\<lparr>files := (files h1)(key := None)\<rparr>))"

text \<open>
  \<open>HybridCache.get(key, default)\<close>; the argument \<open>default\<close> is \<open>dflt\<close>. Every
  exception of the file branch other than \<open>FileNotFoundError\<close> ends in
  \<open>except Exception: ... return default\<close>. \<open>f.read(n)\<close> raises \<open>OverflowError\<close> for
  every \<open>n\<close> from \<open>2 ^ 63 - 1\<close> on; that smaller reads fail for lack of memory is
  part of \<open>read_error\<close>.
\<close>

definition hybrid_get ::
  "libs \<Rightarrow> file_io \<Rightarrow> real \<Rightarrow> HybridCache \<Rightarrow> string \<Rightarrow> bytes option \<Rightarrow> bytes option \<times> HybridCache" where
  "hybrid_get L io now h logical_key dflt =
     (let key = md5_hex L logical_key;
          (hit, m1) = lru_get now (memory_cache h) key;
          h1 = h\<lparr>memory_cache := m1\<rparr>
      in case hit of
           Some entry \<Rightarrow> (Some (data entry), h1)
         | None \<Rightarrow>
            (case files h1 key of
               None \<Rightarrow> (dflt, h1)
             | Some content \<Rightarrow>
                 if read_error io then (dflt, h1)
                 else
                   (let metadata_size = take 8 content;
                        metadata_length = from_bytes_big metadata_size;
                        metadata_bytes = take metadata_length (drop 8 content)
                    in if metadata_length \<ge> 2 ^ 63 - 1 then (dflt, h1)
                       else
                       case json_loads L metadata_bytes of
                         None \<Rightarrow> (dflt, h1)
                       | Some metadata \<Rightarrow>
                          (case json_field_number metadata ''expires_at'' of
                             None \<Rightarrow> (dflt, h1)
                           | Some expires \<Rightarrow>
                               if expires < now then (dflt, snd (hybrid_delete io h1 key))
                               else
                                 (let payload = drop metadata_length (drop 8 content) in
                                  case json_field_number metadata ''access_count'' of
                                    None \<Rightarrow> (dflt, h1)
                                  | Some count \<Rightarrow>
                                      (let entry = \<lparr>data = payload, expires_at = expires,
                                                    access_count = count + 1, last_access = now,
                                                    entry_size = int (length payload)\<rparr>
                                       in (Some payload,
                                           h1\<lparr>memory_cache := lru_set m1 key entry\<rparr>)))))))"

text \<open>
  \<open>HybridCache.set(key, data, ttl)\<close>. \<open>ttl or self.ttl\<close> takes the cache's TTL for
  \<open>None\<close> and for 0. The memory store is updated before the file is written. An MD5
  hex digest has no dot, so \<open>with_suffix(".tmp")\<close> appends the suffix. A successful
  write renames the temporary file onto the final name.
\<close>

definition ttl_or :: "real option \<Rightarrow> real \<Rightarrow> real" where
  "ttl_or t dflt = (case t of None \<Rightarrow> dflt | Some x \<Rightarrow> if x = 0 then dflt else x)"

definition file_frame :: "libs \<Rightarrow> real \<Rightarrow> real \<Rightarrow> bytes \<Rightarrow> bytes" where
  "file_frame L expires now d =
     (let metadata = JObj [(''expires_at'', JNum expires), (''access_count'', JNum 0),
                           (''last_access'', JNum now)];
          metadata_bytes = json_dumps L metadata;
          metadata_size = to_bytes_big 8 (length metadata_bytes)
      in metadata_size @ metadata_bytes @ d)"

definition hybrid_set ::
  "libs \<Rightarrow> file_io \<Rightarrow> real \<Rightarrow> HybridCache \<Rightarrow> string \<Rightarrow> bytes \<Rightarrow> real option \<Rightarrow> bool \<times> HybridCache" where
  "hybrid_set L io now h logical_key d t =
     (let expires = now + ttl_or t (ttl h);
          entry = new_entry now expires d;
          key = md5_hex L logical_key;
          h1 = h\<lparr>memory_cache := lru_set (memory_cache h) key entry\<rparr>;
          temp_path = key @ ''.tmp''
      in case write_result io of
           Written \<Rightarrow>
             (True, h1\<lparr>files := (files h1)(temp_path := None, key \<mapsto> file_frame L expires now d)\<rparr>)
         | WriteFailed left \<Rightarrow>
             (False, h1\<lparr>files := (files h1)(temp_path := left)\<rparr>))"

text \<open>\<open>AsyncMemoryCache\<close> wraps one LRU store; its state is that store.\<close>

definition async_get :: "real \<Rightarrow> LRUMemoryCache \<Rightarrow> string \<Rightarrow> bytes option \<Rightarrow> bytes option \<times> LRUMemoryCache" where
  "async_get now c key dflt =
     (case lru_get now c key of
        (Some entry, c') \<Rightarrow> (Some (data entry), c')
      | (None, c') \<Rightarrow> (dflt, c'))"

definition async_set :: "real \<Rightarrow> LRUMemoryCache \<Rightarrow> string \<Rightarrow> bytes \<Rightarrow> real option \<Rightarrow> bool \<times> LRUMemoryCache" where
  "async_set now c key d t =
     (let expires = now + ttl_or t 3600
      in (True, lru_set c key (new_entry now expires d)))"

definition async_delete :: "LRUMemoryCache \<Rightarrow> string \<Rightarrow> bool \<times> LRUMemoryCache" where
  "async_delete c key = (True, lru_remove c key)"

section \<open>The parsed manifest and the typed cache facades\<close>

text \<open>
  Python values a segment's \<open>extinf\<close> can hold. A \<open>float\<close> is a finite real or one of
  the three special values.
\<close>

datatype pyfloat = Fin real | PosInf | NegInf | NaN

datatype pyval = PyNone | PyBool bool | PyInt int | PyFloat pyfloat | PyStr string

text \<open>
  The parsed manifest as the translator reads it. Keys the code reads with
  \<open>d[k]\<close> and the spec's data model requires are plain fields; keys it reads with
  \<open>d.get(k)\<close> or tests with \<open>k in d\<close> are optional fields, \<open>None\<close> when the key is
  absent. The profile's key \<open>id\<close> is the field \<open>profile_id\<close>.
\<close>

record segment =
  media :: string
  extinf :: "pyval option"
  number :: "int option"
  hls_media_sequence_num :: "int option"
  program_date_time :: "string option"

record profile =
  profile_id :: string
  mimeType :: string
  bandwidth :: int
  width :: int
  height :: int
  codecs :: string
  frameRate :: string
  lang :: "string option"
  initUrl :: string
  segments :: "segment list"

record mpd_dict =
  isLive :: bool
  minimumUpdatePeriod :: "real option"
  profiles :: "profile list"

type_synonym headers = "(string \<times> string) list"

text \<open>
  The collaborators outside the two source files: the downloader, the manifest
  parser (\<open>parse_mpd\<close>, giving the raw dictionary), the manifest processor
  (\<open>parse_mpd_dict\<close>, which also reads the clock) and the URL builder
  (\<open>encode_mediaflow_proxy_url(url, query_params, encryption_handler)\<close>, the last
  argument being whether a handler is passed).
\<close>

record collaborators =
  download_file_with_retry :: "string \<Rightarrow> headers \<Rightarrow> exn + bytes"
  parse_mpd :: "bytes \<Rightarrow> exn + json"
  parse_mpd_dict :: "real \<Rightarrow> json \<Rightarrow> string \<Rightarrow> bool \<Rightarrow> string option \<Rightarrow> exn + mpd_dict"
  encode_mediaflow_proxy_url :: "string \<Rightarrow> (string \<times> string) list \<Rightarrow> bool \<Rightarrow> string"

text \<open>
  \<open>get_cached_init_segment\<close> on the cache \<open>INIT_SEGMENT_CACHE\<close>. \<open>t_get\<close> and \<open>t_set\<close>
  are the clock readings at the lookup and at the write after the download. Every
  exception of the download branch ends in \<open>except Exception: ... return None\<close>, so
  no branch of the result is \<open>Inl\<close>.
\<close>

definition get_cached_init_segment ::
  "libs \<Rightarrow> collaborators \<Rightarrow> file_io \<Rightarrow> real \<Rightarrow> real \<Rightarrow> HybridCache \<Rightarrow> string \<Rightarrow> headers
   \<Rightarrow> (exn + bytes option) \<times> HybridCache" where
  "get_cached_init_segment L C io t_get t_set h init_url hdrs =
     (case hybrid_get L io t_get h init_url None of
        (Some cached_data, h1) \<Rightarrow> (Inr (Some cached_data), h1)
      | (None, h1) \<Rightarrow>
          (case download_file_with_retry C init_url hdrs of
             Inl e \<Rightarrow> (Inr None, h1)
           | Inr init_content \<Rightarrow>
               if init_content \<noteq> []
               then (Inr (Some init_content), snd (hybrid_set L io t_set h1 init_url init_content None))
               else (Inr (Some init_content), h1)))"

text \<open>
  \<open>get_cached_mpd\<close> on the cache \<open>MPD_CACHE\<close>. The TTL chain of lines 339 to 347,
  then the download-and-parse branch (lines 330 to 362), then the whole function.
\<close>

definition cache_ttl :: "real option \<Rightarrow> real" where
  "cache_ttl mup =
     (if mup \<noteq> None \<and> the mup > 0 then the mup
      else if mup \<noteq> None \<and> the mup \<le> 0 then 1
      else 3600)"

definition fetch_mpd ::
  "libs \<Rightarrow> collaborators \<Rightarrow> real \<Rightarrow> LRUMemoryCache \<Rightarrow> string \<Rightarrow> headers \<Rightarrow> bool \<Rightarrow> string option
   \<Rightarrow> (exn + mpd_dict) \<times> LRUMemoryCache" where
  "fetch_mpd L C now c mpd_url hdrs parse_drm parse_segment_profile_id =
     (case download_file_with_retry C mpd_url hdrs of
        Inl error \<Rightarrow> (Inl error, c)
      | Inr mpd_content \<Rightarrow>
         (case parse_mpd C mpd_content of
            Inl error \<Rightarrow> (Inl error, c)
          | Inr mpd_dict_fresh \<Rightarrow>
             (case parse_mpd_dict C now mpd_dict_fresh mpd_url parse_drm parse_segment_profile_id of
                Inl error \<Rightarrow> (Inl error, c)
              | Inr parsed_dict_fresh \<Rightarrow>
                 (let mup = minimumUpdatePeriod parsed_dict_fresh;
                      (ok, c') = async_set now c mpd_url (json_dumps L mpd_dict_fresh)
                                   (Some (cache_ttl mup))
                  in (Inr parsed_dict_fresh, c')))))"

definition get_cached_mpd ::
  "libs \<Rightarrow> collaborators \<Rightarrow> real \<Rightarrow> real \<Rightarrow> LRUMemoryCache \<Rightarrow> string \<Rightarrow> headers \<Rightarrow> bool \<Rightarrow> string option
   \<Rightarrow> (exn + mpd_dict) \<times> LRUMemoryCache" where
  "get_cached_mpd L C t_get t_set c mpd_url hdrs parse_drm parse_segment_profile_id =
     (case async_get t_get c mpd_url None of
        (None, c1) \<Rightarrow> fetch_mpd L C t_set c1 mpd_url hdrs parse_drm parse_segment_profile_id
      | (Some cached_data, c1) \<Rightarrow>
         (case json_loads L cached_data of
            None \<Rightarrow>
              fetch_mpd L C t_set (snd (async_delete c1 mpd_url)) mpd_url hdrs parse_drm
                parse_segment_profile_id
          | Some mpd_dict_from_cache \<Rightarrow>
             (case parse_mpd_dict C t_get mpd_dict_from_cache mpd_url parse_drm
                     parse_segment_profile_id of
                Inr processed \<Rightarrow> (Inr processed, c1)
              | Inl e \<Rightarrow>
                  fetch_mpd L C t_set (snd (async_delete c1 mpd_url)) mpd_url hdrs parse_drm
                    parse_segment_profile_id)))"

section \<open>The manifest translator (mpd\_processor.py)\<close>

text \<open>
  The inbound request as the translator uses it: the query parameters (the items
  of \<open>dict(request.query_params)\<close>), \<open>request.url_for\<close>, and
  \<open>with_original_scheme url\<close> for
  \<open>str(url.replace(scheme=get_original_scheme(request)))\<close>.
\<close>

record request =
  query_params :: "(string \<times> string) list"
  url_for :: "string \<Rightarrow> string"
  with_original_scheme :: "string \<Rightarrow> string"

text \<open>Python's \<open>str\<close> of an \<open>int\<close>, \<open>"\n".join\<close>, \<open>sub in s\<close> and the truth of an optional string.\<close>

fun str_nat :: "nat \<Rightarrow> string" where
  "str_nat n =
     (if n < 10 then [''0123456789'' ! n]
      else str_nat (n div 10) @ [''0123456789'' ! (n mod 10)])"

definition str_int :: "int \<Rightarrow> string" where
  "str_int i = (if i < 0 then ''-'' @ str_nat (nat (- i)) else str_nat (nat i))"

fun join_lines :: "string list \<Rightarrow> string" where
  "join_lines [] = []"
| "join_lines [l] = l"
| "join_lines (l # m # ls) = l @ [CHR 0x0A] @ join_lines (m # ls)"

fun has_substring :: "string \<Rightarrow> string \<Rightarrow> bool" where
  "has_substring sub [] = (sub = [])"
| "has_substring sub (c # s) = (take (length sub) (c # s) = sub \<or> has_substring sub s)"

definition truthy :: "string option \<Rightarrow> bool" where
  "truthy v = (case v of None \<Rightarrow> False | Some s \<Rightarrow> s \<noteq> [])"

definition or_empty :: "string option \<Rightarrow> string" where
  "or_empty v = (case v of None \<Rightarrow> [] | Some s \<Rightarrow> s)"

subsection \<open>\<open>build_hls\<close>: the master manifest\<close>

text \<open>
  One round of the loop over \<open>mpd_dict["profiles"]\<close>: the three keys are written
  into the running \<open>query_params\<close>, the playlist URL is built, and the pair
  \<open>(profile, playlist_url)\<close> is stored under the profile's id in the video or the
  audio dictionary. The state is \<open>(query_params, video_profiles, audio_profiles)\<close>.
\<close>

type_synonym hls_state =
  "(string \<times> string) list \<times> (profile \<times> string) ordered_dict \<times> (profile \<times> string) ordered_dict"

definition hls_profile_step ::
  "collaborators \<Rightarrow> string \<Rightarrow> bool \<Rightarrow> string option \<Rightarrow> string option \<Rightarrow> hls_state \<Rightarrow> profile \<Rightarrow> hls_state" where
  "hls_profile_step C proxy_url has_encrypted key_id key st p =
     (case st of (qp, video_profiles, audio_profiles) \<Rightarrow>
        (let qp' = od_setitem ''key'' (or_empty key)
                     (od_setitem ''key_id'' (or_empty key_id)
                        (od_setitem ''profile_id'' (profile_id p) qp));
             playlist_url = encode_mediaflow_proxy_url C proxy_url qp' has_encrypted
         in if has_substring ''video'' (mimeType p)
            then (qp', od_setitem (profile_id p) (p, playlist_url) video_profiles, audio_profiles)
            else if has_substring ''audio'' (mimeType p)
            then (qp', video_profiles, od_setitem (profile_id p) (p, playlist_url) audio_profiles)
            else (qp', video_profiles, audio_profiles)))"

definition hls_buckets ::
  "collaborators \<Rightarrow> request \<Rightarrow> string option \<Rightarrow> string option \<Rightarrow> profile list \<Rightarrow> hls_state" where
  "hls_buckets C req key_id key ps =
     (let qp = od_pop ''has_encrypted'' (query_params req);
          has_encrypted = truthy (map_of (query_params req) ''has_encrypted'');
          proxy_url = with_original_scheme req (url_for req ''playlist_endpoint'')
      in foldl (hls_profile_step C proxy_url has_encrypted key_id key) (qp, [], []) ps)"

definition video_profiles_of :: "hls_state \<Rightarrow> (profile \<times> string) ordered_dict" where
  "video_profiles_of st = fst (snd st)"

definition audio_profiles_of :: "hls_state \<Rightarrow> (profile \<times> string) ordered_dict" where
  "audio_profiles_of st = snd (snd st)"

definition audio_line :: "nat \<Rightarrow> profile \<times> string \<Rightarrow> string" where
  \<open>audio_line i pu =
     (let is_default = (if i = 0 then ''YES'' else ''NO'') in
      ''#EXT-X-MEDIA:TYPE=AUDIO,GROUP-ID="audio",NAME="'' @ profile_id (fst pu)
      @ ''",DEFAULT='' @ is_default @ '',AUTOSELECT='' @ is_default
      @ '',LANGUAGE="'' @ (case lang (fst pu) of None \<Rightarrow> ''und'' | Some l \<Rightarrow> l)
      @ ''",URI="'' @ snd pu @ ''"'')\<close>

fun audio_lines :: "nat \<Rightarrow> (profile \<times> string) list \<Rightarrow> string list" where
  "audio_lines i [] = []"
| "audio_lines i (pu # pus) = audio_line i pu # audio_lines (Suc i) pus"

definition video_lines :: "profile \<times> string \<Rightarrow> string list" where
  \<open>video_lines pu =
     [''#EXT-X-STREAM-INF:BANDWIDTH='' @ str_int (bandwidth (fst pu))
      @ '',RESOLUTION='' @ str_int (width (fst pu)) @ ''x'' @ str_int (height (fst pu))
      @ '',CODECS="'' @ codecs (fst pu) @ ''",FRAME-RATE='' @ frameRate (fst pu)
      @ '',AUDIO="audio"'',
      snd pu]\<close>

definition build_hls_lines ::
  "collaborators \<Rightarrow> mpd_dict \<Rightarrow> request \<Rightarrow> string option \<Rightarrow> string option \<Rightarrow> string list" where
  "build_hls_lines C mpd req key_id key =
     (let st = hls_buckets C req key_id key (profiles mpd)
      in [''#EXTM3U'', ''#EXT-X-VERSION:6'']
         @ audio_lines 0 (map snd (audio_profiles_of st))
         @ concat (map video_lines (map snd (video_profiles_of st))))"

definition build_hls ::
  "collaborators \<Rightarrow> mpd_dict \<Rightarrow> request \<Rightarrow> string option \<Rightarrow> string option \<Rightarrow> string" where
  "build_hls C mpd req key_id key = join_lines (build_hls_lines C mpd req key_id key)"

subsection \<open>\<open>build_hls_playlist\<close>: the media playlist\<close>

text \<open>
  \<open>isinstance(v, (float, int))\<close> with the number's value: a \<open>bool\<close> is an \<open>int\<close>.
  \<open>extinf_values\<close> is the list comprehension of lines 187 to 189.
\<close>

fun num_of :: "pyval \<Rightarrow> pyfloat option" where
  "num_of (PyBool b) = Some (Fin (if b then 1 else 0))"
| "num_of (PyInt n) = Some (Fin (of_int n))"
| "num_of (PyFloat x) = Some x"
| "num_of PyNone = None"
| "num_of (PyStr s) = None"

fun extinf_values :: "segment list \<Rightarrow> pyfloat list" where
  "extinf_values [] = []"
| "extinf_values (f # fs) =
     (case extinf f of
        None \<Rightarrow> extinf_values fs
      | Some v \<Rightarrow> (case num_of v of None \<Rightarrow> extinf_values fs | Some x \<Rightarrow> x # extinf_values fs))"

text \<open>
  \<open>a > b\<close> on numbers (every comparison with NaN is false), the builtin \<open>max\<close>
  (it keeps the first item and replaces it by each later item that is greater),
  and \<open>math.ceil\<close>, which raises on the special values.
\<close>

fun py_gt :: "pyfloat \<Rightarrow> pyfloat \<Rightarrow> bool" where
  "py_gt NaN b = False"
| "py_gt a NaN = False"
| "py_gt (Fin x) (Fin y) = (x > y)"
| "py_gt (Fin x) NegInf = True"
| "py_gt (Fin x) PosInf = False"
| "py_gt PosInf PosInf = False"
| "py_gt PosInf b = True"
| "py_gt NegInf b = False"

fun py_max :: "pyfloat \<Rightarrow> pyfloat list \<Rightarrow> pyfloat" where
  "py_max cur [] = cur"
| "py_max cur (x # xs) = py_max (if py_gt x cur then x else cur) xs"

fun math_ceil :: "pyfloat \<Rightarrow> exn + int" where
  "math_ceil (Fin x) = Inr \<lceil>x\<rceil>"
| "math_ceil PosInf = Inl OverflowError"
| "math_ceil NegInf = Inl OverflowError"
| "math_ceil NaN = Inl ValueError"

text \<open>
  The format \<open>:.3f\<close>: three decimals, rounded to nearest with ties to even; the
  special values print as \<open>inf\<close>, \<open>-inf\<close>, \<open>nan\<close>. \<open>segment["extinf"]\<close> raises
  \<open>KeyError\<close> when the key is absent, and the format raises on \<open>None\<close> and on a
  string. An \<open>int\<close> is converted to \<open>float\<close> first, which raises \<open>OverflowError\<close>
  from \<open>2 ^ 1024 - 2 ^ 970\<close> on; below that the exact value is printed (the
  conversion's rounding of an \<open>int\<close> above \<open>2 ^ 53\<close> is not represented).
\<close>

definition round_half_even :: "real \<Rightarrow> int" where
  "round_half_even y =
     (let f = \<lfloor>y\<rfloor>; d = y - of_int f
      in if d < 1 / 2 then f else if d > 1 / 2 then f + 1 else if even f then f else f + 1)"

definition format_3f_real :: "real \<Rightarrow> string" where
  "format_3f_real x =
     (let m = nat (round_half_even (\<bar>x\<bar> * 1000))
      in (if x < 0 then ''-'' else '''') @ str_nat (m div 1000) @ ''.''
         @ [''0123456789'' ! (m div 100 mod 10), ''0123456789'' ! (m div 10 mod 10),
            ''0123456789'' ! (m mod 10)])"

fun format_3f :: "pyval option \<Rightarrow> exn + string" where
  "format_3f None = Inl KeyError"
| "format_3f (Some PyNone) = Inl TypeError"
| "format_3f (Some (PyStr s)) = Inl ValueError"
| "format_3f (Some (PyBool b)) = Inr (format_3f_real (if b then 1 else 0))"
| "format_3f (Some (PyInt n)) =
     (if \<bar>n\<bar> \<ge> 2 ^ 1024 - 2 ^ 970 then Inl OverflowError
      else Inr (format_3f_real (of_int n)))"
| "format_3f (Some (PyFloat (Fin x))) = Inr (format_3f_real x)"
| "format_3f (Some (PyFloat PosInf)) = Inr ''inf''"
| "format_3f (Some (PyFloat NegInf)) = Inr ''-inf''"
| "format_3f (Some (PyFloat NaN)) = Inr ''nan''"

text \<open>
  The header block of the first profile (lines 174 to 209), giving the three
  header lines and the warnings logged. Its first branch is the inner
  \<open>if not segments\<close> of line 175.
\<close>

definition playlist_headers :: "mpd_dict \<Rightarrow> profile \<Rightarrow> exn + (string list \<times> string list)" where
  "playlist_headers mpd p =
     (case (case segments p of
              [] \<Rightarrow>
                Inr (0, 5,
                     [''Profile '' @ profile_id p @ '' has no segments to build HLS playlist.''])
            | s0 # rest \<Rightarrow>
               (let sequence = (case hls_media_sequence_num s0 of
                                  Some n \<Rightarrow> n
                                | None \<Rightarrow> (case number s0 of Some n \<Rightarrow> n | None \<Rightarrow> 0))
                in case extinf_values (segments p) of
                     [] \<Rightarrow>
                       Inr (sequence, 5,
                            [''No valid extinf values found for profile '' @ profile_id p
                             @ ''. Using default target duration.''])
                   | v # vs \<Rightarrow>
                      (case math_ceil (py_max v vs) of
                         Inl e \<Rightarrow> Inl e
                       | Inr target_duration \<Rightarrow> Inr (sequence, target_duration, [])))) of
        Inl e \<Rightarrow> Inl e
      | Inr (sequence, target_duration, warnings) \<Rightarrow>
          Inr ([''#EXT-X-TARGETDURATION:'' @ str_int target_duration,
                ''#EXT-X-MEDIA-SEQUENCE:'' @ str_int sequence,
                if isLive mpd then ''#EXT-X-PLAYLIST-TYPE:EVENT'' else ''#EXT-X-PLAYLIST-TYPE:VOD''],
               warnings))"

text \<open>The lines of one segment (lines 218 to 254), and of all segments of a profile.\<close>

definition segment_lines ::
  "collaborators \<Rightarrow> mpd_dict \<Rightarrow> request \<Rightarrow> profile \<Rightarrow> segment \<Rightarrow> exn + string list" where
  "segment_lines C mpd req p seg =
     (let pdt = (if isLive mpd \<and> truthy (program_date_time seg)
                 then [''#EXT-X-PROGRAM-DATE-TIME:'' @ or_empty (program_date_time seg)]
                 else [])
      in case format_3f (extinf seg) of
           Inl e \<Rightarrow> Inl e
         | Inr s \<Rightarrow>
            (let params = [(''init_url'', Some (initUrl p)),
                           (''segment_url'', Some (media seg)),
                           (''mime_type'', Some (mimeType p)),
                           (''key_id'', map_of (query_params req) ''key_id''),
                           (''key'', map_of (query_params req) ''key''),
                           (''api_password'', map_of (query_params req) ''api_password'')];
                 segment_url_query_params = [(k, the v). (k, v) \<leftarrow> params, v \<noteq> None];
                 current_has_encrypted_flag = truthy (map_of (query_params req) ''has_encrypted'')
             in Inr (pdt @ [''#EXTINF:'' @ s @ '','',
                            encode_mediaflow_proxy_url C (url_for req ''segment_endpoint'')
                              segment_url_query_params current_has_encrypted_flag])))"

fun segments_lines ::
  "collaborators \<Rightarrow> mpd_dict \<Rightarrow> request \<Rightarrow> profile \<Rightarrow> segment list \<Rightarrow> exn + string list" where
  "segments_lines C mpd req p [] = Inr []"
| "segments_lines C mpd req p (seg # segs) =
     (case segment_lines C mpd req p seg of
        Inl e \<Rightarrow> Inl e
      | Inr ls \<Rightarrow>
         (case segments_lines C mpd req p segs of
            Inl e \<Rightarrow> Inl e
          | Inr others \<Rightarrow> Inr (ls @ others)))"

text \<open>
  The loop \<open>for index, profile in enumerate(profiles)\<close>, giving the lines appended
  to \<open>hls\<close> and the warnings logged. A profile without segments is skipped by the
  \<open>continue\<close> of line 171, before the header block.
\<close>

fun playlist_loop ::
  "collaborators \<Rightarrow> mpd_dict \<Rightarrow> request \<Rightarrow> nat \<Rightarrow> profile list \<Rightarrow> exn + (string list \<times> string list)" where
  "playlist_loop C mpd req index [] = Inr ([], [])"
| "playlist_loop C mpd req index (p # ps) =
     (if segments p = [] then
        (case playlist_loop C mpd req (Suc index) ps of
           Inl e \<Rightarrow> Inl e
         | Inr (ls, ws) \<Rightarrow> Inr (ls, (''No segments found for profile '' @ profile_id p) # ws))
      else
        (case (if index = 0 then playlist_headers mpd p else Inr ([], [])) of
           Inl e \<Rightarrow> Inl e
         | Inr (hdr, hws) \<Rightarrow>
            (case segments_lines C mpd req p (segments p) of
               Inl e \<Rightarrow> Inl e
             | Inr sls \<Rightarrow>
                (case playlist_loop C mpd req (Suc index) ps of
                   Inl e \<Rightarrow> Inl e
                 | Inr (ls, ws) \<Rightarrow> Inr (hdr @ sls @ ls, hws @ ws)))))"

text \<open>The list \<open>hls\<close> at the return, with the warnings logged, and the returned string.\<close>

definition build_hls_playlist_hls ::
  "collaborators \<Rightarrow> mpd_dict \<Rightarrow> profile list \<Rightarrow> request \<Rightarrow> exn + (string list \<times> string list)" where
  "build_hls_playlist_hls C mpd ps req =
     (case playlist_loop C mpd req 0 ps of
        Inl e \<Rightarrow> Inl e
      | Inr (ls, ws) \<Rightarrow>
          Inr ([''#EXTM3U'', ''#EXT-X-VERSION:6''] @ ls
               @ (if \<not> isLive mpd then [''#EXT-X-ENDLIST''] else []),
               ws))"

definition build_hls_playlist ::
  "collaborators \<Rightarrow> mpd_dict \<Rightarrow> profile list \<Rightarrow> request \<Rightarrow> exn + string" where
  "build_hls_playlist C mpd ps req =
     (case build_hls_playlist_hls C mpd ps req of
        Inl e \<Rightarrow> Inl e
      | Inr (hls, ws) \<Rightarrow> Inr (join_lines hls))"

text \<open>
  The target duration in the spec's words: the ceiling of the maximum of the
  finite numeric \<open>extinf\<close> values, and 5 when there is none.
\<close>

fun finite_values :: "pyfloat list \<Rightarrow> real list" where
  "finite_values [] = []"
| "finite_values (Fin x # vs) = x # finite_values vs"
| "finite_values (v # vs) = finite_values vs"

definition spec_target_duration :: "segment list \<Rightarrow> int" where
  "spec_target_duration segs =
     (if finite_values (extinf_values segs) = [] then 5
      else \<lceil>Max (set (finite_values (extinf_values segs)))\<rceil>)"

text \<open>
  The same value read off the segments directly: an \<open>extinf\<close> is a finite number
  when it is a finite \<open>float\<close>, an \<open>int\<close> or a \<open>bool\<close>.
\<close>

fun finite_number :: "pyval option \<Rightarrow> real option" where
  "finite_number (Some (PyFloat (Fin x))) = Some x"
| "finite_number (Some (PyInt n)) = Some (of_int n)"
| "finite_number (Some (PyBool b)) = Some (if b then 1 else 0)"
| "finite_number v = None"

fun is_finite :: "pyfloat \<Rightarrow> bool" where
  "is_finite (Fin x) = True"
| "is_finite v = False"

text \<open>
  The master manifest in the spec's words. A profile is a video profile when its
  mime type contains \<open>video\<close> and an audio profile when it contains \<open>audio\<close> and
  not \<open>video\<close>. \<open>ids_in_order\<close> lists the distinct ids of a list in the order of
  their first occurrence, \<open>last_with_id\<close> is the last profile of a list with a given
  id, and \<open>emitted_profiles\<close> are the renditions of one kind: for every distinct
  id of that kind, in the order of first occurrence, the last profile of the
  kind with that id. \<open>playlist_url_of\<close> is the rendition URL of a profile: the
  playlist endpoint with the request's query (without \<open>has_encrypted\<close>) and the
  profile's \<open>profile_id\<close>, \<open>key_id\<close> and \<open>key\<close>.
\<close>

definition is_video :: "profile \<Rightarrow> bool" where
  "is_video p = has_substring ''video'' (mimeType p)"

definition is_audio :: "profile \<Rightarrow> bool" where
  "is_audio p = (\<not> has_substring ''video'' (mimeType p) \<and> has_substring ''audio'' (mimeType p))"

definition ids_in_order :: "string list \<Rightarrow> string list" where
  "ids_in_order ids = rev (remdups (rev ids))"

definition last_with_id :: "string \<Rightarrow> profile list \<Rightarrow> profile option" where
  "last_with_id i ps =
     (if filter (\<lambda>q. profile_id q = i) ps = [] then None
      else Some (last (filter (\<lambda>q. profile_id q = i) ps)))"

definition emitted_profiles :: "(profile \<Rightarrow> bool) \<Rightarrow> profile list \<Rightarrow> profile list" where
  "emitted_profiles kind ps =
     map (\<lambda>i. the (last_with_id i (filter kind ps)))
       (ids_in_order (map profile_id (filter kind ps)))"

definition profile_query ::
  "string \<Rightarrow> string option \<Rightarrow> string option \<Rightarrow> (string \<times> string) list \<Rightarrow> (string \<times> string) list" where
  "profile_query pid key_id key qp =
     od_setitem ''key'' (or_empty key)
       (od_setitem ''key_id'' (or_empty key_id) (od_setitem ''profile_id'' pid qp))"

definition playlist_url_of ::
  "collaborators \<Rightarrow> request \<Rightarrow> string option \<Rightarrow> string option \<Rightarrow> profile \<Rightarrow> string" where
  "playlist_url_of C req key_id key p =
     encode_mediaflow_proxy_url C
       (with_original_scheme req (url_for req ''playlist_endpoint''))
       (profile_query (profile_id p) key_id key (od_pop ''has_encrypted'' (query_params req)))
       (truthy (map_of (query_params req) ''has_encrypted''))"

section \<open>Corrupt cache files\<close>

text \<open>
  A cache file is unreadable for \<open>HybridCache.get\<close> at time \<open>now\<close> when its header
  announces a metadata length no read can be asked for, or the framed metadata
  does not decode, or holds no numeric \<open>expires_at\<close>, or is not expired and holds no
  numeric \<open>access_count\<close>: the cases in which the file branch raises before it has
  built an entry.
\<close>

definition metadata_unreadable :: "libs \<Rightarrow> real \<Rightarrow> bytes \<Rightarrow> bool" where
  "metadata_unreadable L now content =
     (from_bytes_big (take 8 content) \<ge> 2 ^ 63 - 1 \<or>
      (case json_loads L (take (from_bytes_big (take 8 content)) (drop 8 content)) of
        None \<Rightarrow> True
      | Some metadata \<Rightarrow>
          (case json_field_number metadata ''expires_at'' of
             None \<Rightarrow> True
           | Some expires \<Rightarrow>
               \<not> expires < now \<and> json_field_number metadata ''access_count'' = None)))"

section \<open>Example inputs\<close>

text \<open>
  Concrete libraries and collaborators for the closed examples. \<open>md5_hex_known\<close>
  holds the genuine MD5 digests of the keys the examples use and \<open>known_libs\<close> the
  genuine JSON texts of the two documents they use; the examples call them on
  nothing else (every other key gets the digest of the empty string, every other
  text is rejected by \<open>json_loads\<close>).
\<close>

definition md5_hex_known :: "string \<Rightarrow> string" where
  "md5_hex_known s =
     (if s = ''k'' then ''8ce4b16b22b58894aa86c421e8759df3''
      else if s = ''http://cdn.example/init.mp4'' then ''f2954a48ef6f7adae0b03e82d0fafe2d''
      else ''d41d8cd98f00b204e9800998ecf8427e'')"

definition metadata_text :: bytes where
  \<open>metadata_text = ''{"expires_at": 4000.0, "access_count": 0, "last_access": 400.0}''\<close>

definition metadata_json :: json where
  "metadata_json =
     JObj [(''expires_at'', JNum 4000), (''access_count'', JNum 0), (''last_access'', JNum 400)]"

definition raw_manifest :: json where
  "raw_manifest = JObj [(''MPD'', JNull)]"

definition known_libs :: libs where
  \<open>known_libs =
     \<lparr>md5_hex = md5_hex_known,
      json_loads = (\<lambda>b. if b = metadata_text then Some metadata_json
                         else if b = ''{"MPD": null}'' then Some raw_manifest else None),
      json_dumps = (\<lambda>j. if j = metadata_json then metadata_text
                         else if j = raw_manifest then ''{"MPD": null}'' else ''null'')\<rparr>\<close>

definition example_cache :: HybridCache where
  "example_cache = hybrid_init 3600 1000"

definition disk_full :: file_io where
  "disk_full = \<lparr>read_error = False, remove_error = False, write_result = WriteFailed None\<rparr>"

text \<open>
  A cache file whose 8-byte header announces 5 bytes of metadata, followed by 5
  bytes that are not JSON and a payload.
\<close>

definition corrupt_file :: bytes where
  "corrupt_file =
     [CHR 0x00, CHR 0x00, CHR 0x00, CHR 0x00, CHR 0x00, CHR 0x00, CHR 0x00, CHR 0x05]
     @ ''{bad!'' @ ''payload''"

text \<open>
  A cache file written for the payload \<open>payload\<close> (63 bytes of metadata) and cut
  short after the first three bytes of the payload.
\<close>

definition truncated_file :: bytes where
  "truncated_file =
     [CHR 0x00, CHR 0x00, CHR 0x00, CHR 0x00, CHR 0x00, CHR 0x00, CHR 0x00, CHR 0x3F]
     @ metadata_text @ ''pay''"

definition truncated_cache :: HybridCache where
  "truncated_cache = example_cache\<lparr>files := [md5_hex known_libs ''k'' \<mapsto> truncated_file]\<rparr>"

definition corrupt_cache :: HybridCache where
  "corrupt_cache = example_cache\<lparr>files := [md5_hex known_libs ''k'' \<mapsto> corrupt_file]\<rparr>"

definition example_mpd :: mpd_dict where
  "example_mpd = \<lparr>isLive = True, minimumUpdatePeriod = Some 5, profiles = []\<rparr>"

text \<open>A downloader that always raises \<open>DownloadError\<close>, and one that delivers a manifest.\<close>

definition offline :: collaborators where
  "offline =
     \<lparr>download_file_with_retry = (\<lambda>url hdrs. Inl DownloadError),
      parse_mpd = (\<lambda>b. Inr raw_manifest),
      parse_mpd_dict = (\<lambda>now raw url pd pid. Inr example_mpd),
      encode_mediaflow_proxy_url = (\<lambda>url qp enc. url)\<rparr>"

definition online :: collaborators where
  "online =
     \<lparr>download_file_with_retry = (\<lambda>url hdrs. Inr ''<MPD/>''),
      parse_mpd = (\<lambda>b. Inr raw_manifest),
      parse_mpd_dict = (\<lambda>now raw url pd pid. Inr example_mpd),
      encode_mediaflow_proxy_url = (\<lambda>url qp enc. url)\<rparr>"

text \<open>
  A URL builder that appends the query in the plain form, a request, and profiles
  and segments for the translator examples (the three segments are those of the
  spec's scenario S3).
\<close>

definition plain_urls :: collaborators where
  "plain_urls =
     \<lparr>download_file_with_retry = (\<lambda>url hdrs. Inl DownloadError),
      parse_mpd = (\<lambda>b. Inr raw_manifest),
      parse_mpd_dict = (\<lambda>now raw url pd pid. Inr example_mpd),
      encode_mediaflow_proxy_url =
        (\<lambda>url qp enc. url @ ''?'' @ concat (map (\<lambda>(k, v). k @ ''='' @ v @ ''&'') qp))\<rparr>"

definition example_request :: request where
  "example_request =
     \<lparr>query_params = [(''d'', ''http://cdn.example/vod.mpd'')],
      url_for = (\<lambda>name. ''http://proxy/'' @ name),
      with_original_scheme = (\<lambda>url. url)\<rparr>"

definition seg :: "string \<Rightarrow> pyval option \<Rightarrow> int \<Rightarrow> segment" where
  "seg m e n = \<lparr>media = m, extinf = e, number = Some n, hls_media_sequence_num = None,
               program_date_time = None\<rparr>"

definition video_profile :: "string \<Rightarrow> int \<Rightarrow> segment list \<Rightarrow> profile" where
  "video_profile i bw segs =
     \<lparr>profile_id = i, mimeType = ''video/mp4'', bandwidth = bw, width = 1280, height = 720,
      codecs = ''avc1.64001f'', frameRate = ''30'', lang = None, initUrl = ''init.mp4'',
      segments = segs\<rparr>"

definition audio_profile :: "string \<Rightarrow> string \<Rightarrow> profile" where
  "audio_profile i l =
     \<lparr>profile_id = i, mimeType = ''audio/mp4'', bandwidth = 128000, width = 0, height = 0,
      codecs = ''mp4a.40.2'', frameRate = '''', lang = Some l, initUrl = ''init.mp4'',
      segments = []\<rparr>"

definition vod :: "profile list \<Rightarrow> mpd_dict" where
  "vod ps = \<lparr>isLive = False, minimumUpdatePeriod = None, profiles = ps\<rparr>"

definition s3_segments :: "segment list" where
  "s3_segments = [seg ''s0'' (Some (PyFloat (Fin 4))) 0, seg ''s1'' (Some (PyFloat (Fin 4.5))) 1,
                  seg ''s2'' (Some (PyFloat (Fin 3.9))) 2]"

definition inf_segments :: "segment list" where
  "inf_segments = [seg ''s0'' (Some (PyFloat (Fin 4))) 0, seg ''s1'' (Some (PyFloat PosInf)) 1]"

definition duplicate_ids :: "profile list" where
  "duplicate_ids =
     [video_profile ''v1'' 1000000 [], audio_profile ''a1'' ''en'',
      video_profile ''v1'' 2000000 [], audio_profile ''a1'' ''de'']"

text \<open>
  A subtitle profile (neither video nor audio), a video and an audio profile
  sharing the id \<open>x\<close>, and a video profile followed by a subtitle profile with
  the same id.
\<close>

definition text_profile :: "string \<Rightarrow> profile" where
  "text_profile i =
     \<lparr>profile_id = i, mimeType = ''text/vtt'', bandwidth = 1000, width = 0, height = 0,
      codecs = ''wvtt'', frameRate = [], lang = Some ''en'', initUrl = ''init.mp4'',
      segments = []\<rparr>"

definition shared_id_video_audio :: "profile list" where
  "shared_id_video_audio = [video_profile ''x'' 1000000 [], audio_profile ''x'' ''en'']"

definition shared_id_video_text :: "profile list" where
  "shared_id_video_text = [video_profile ''x'' 1000000 [], text_profile ''x'']"

text \<open>The corrupt file again, with an expired entry of the same key in the memory store.\<close>

definition stale_corrupt_cache :: HybridCache where
  "stale_corrupt_cache =
     corrupt_cache\<lparr>memory_cache :=
       lru_set (lru_init 1000) (md5_hex known_libs ''k'') (new_entry 0 100 ''old'')\<rparr>"

section \<open>The LRU store: size accounting and recency\<close>

lemma od_setitem_keys_fresh:
  "k \<notin> fst ` set d \<Longrightarrow> map fst (od_setitem k v d) = map fst d @ [k]"
  by (induction d) auto

lemma od_setitem_sum_fresh:
  "k \<notin> fst ` set d \<Longrightarrow>
   sum_list (map (\<lambda>(k, e). entry_size e) (od_setitem k v d)) =
   sum_list (map (\<lambda>(k, e). entry_size e) d) + entry_size v"
  by (induction d) auto

lemma evict_keys_subset:
  "evict mx esz cs d = (cs', d') \<Longrightarrow> set d' \<subseteq> set d"
  by (induction d arbitrary: cs) (fastforce split: if_splits)+

lemma evict_accounting:
  "evict mx esz cs d = (cs', d') \<Longrightarrow>
   cs' - sum_list (map (\<lambda>(k, e). entry_size e) d') =
   cs - sum_list (map (\<lambda>(k, e). entry_size e) d)"
  by (induction d arbitrary: cs) (auto split: if_splits)

lemma evict_bound:
  "evict mx esz cs d = (cs', d') \<Longrightarrow> d' \<noteq> [] \<Longrightarrow> cs' + esz \<le> mx"
  by (induction d arbitrary: cs) (auto split: if_splits)

text \<open>
  A \<open>set\<close> of a key that is not stored keeps the accounting exact and the bound: the
  defect below is confined to the overwrite path.
\<close>

lemma lru_set_fresh_key_bound:
  assumes "map_of (cache c) key = None"
    and "current_size c = total_size c"
    and "entry_size entry \<le> maxsize c"
  shows "current_size (lru_set c key entry) = total_size (lru_set c key entry)
         \<and> total_size (lru_set c key entry) \<le> maxsize c"
proof -
  obtain cs1 d1 where ev: "evict (maxsize c) (entry_size entry) (current_size c) (cache c) = (cs1, d1)"
    by (cases "evict (maxsize c) (entry_size entry) (current_size c) (cache c)")
  have fresh: "key \<notin> fst ` set d1"
    using evict_keys_subset [OF ev] assms(1) by (auto simp: map_of_eq_None_iff)
  have acc: "cs1 = sum_list (map (\<lambda>(k, e). entry_size e) d1)"
    using evict_accounting [OF ev] assms(2) by (simp add: total_size_def)
  have res: "lru_set c key entry =
      c\<lparr>cache := od_setitem key entry d1, current_size := cs1 + entry_size entry\<rparr>"
    using ev assms(1) by (simp add: lru_set_def)
  have tot: "total_size (lru_set c key entry) = cs1 + entry_size entry"
    by (simp add: res total_size_def od_setitem_sum_fresh [OF fresh] acc)
  have bound: "d1 \<noteq> [] \<Longrightarrow> cs1 + entry_size entry \<le> maxsize c"
    using evict_bound [OF ev] by simp
  have empty: "d1 = [] \<Longrightarrow> cs1 + entry_size entry \<le> maxsize c"
    using acc assms(3) by simp
  show ?thesis
    using tot bound empty by (auto simp: res)
qed

text \<open>
  C1. The claim: after every operation the sum of the stored sizes is at most
  \<open>maxsize\<close>, also after a \<open>set\<close> that overwrites a key. The code subtracts the old
  entry's size but leaves the old entry in the dictionary; when the eviction loop
  then pops that same entry its size is subtracted a second time, the loop stops
  too early, and the store ends above its capacity. With \<open>maxsize = 10\<close>:
  \<open>set(a, 6 bytes)\<close>, \<open>set(b, 4 bytes)\<close>, \<open>set(a, 9 bytes)\<close> leaves \<open>b\<close> and \<open>a\<close>
  stored with 13 bytes in total, while \<open>_current_size\<close> reads 7.
\<close>

theorem lru_set_overwrite_exceeds_maxsize:
  "(let c1 = lru_set (lru_init 10) ''a'' (new_entry 0 3600 ''aaaaaa'');
        c2 = lru_set c1 ''b'' (new_entry 0 3600 ''bbbb'');
        c3 = lru_set c2 ''a'' (new_entry 0 3600 ''AAAAAAAAA'')
    in total_size c1 = 6 \<and> total_size c2 = 10
       \<and> keys_in_order c3 = [''b'', ''a''] \<and> total_size c3 = 13
       \<and> current_size c3 = 7 \<and> maxsize c3 = 10)"
  by (simp add: lru_set_def lru_init_def new_entry_def total_size_def keys_in_order_def)

text \<open>
  C8. The claim: after \<open>set(k, e)\<close> the key \<open>k\<close> is the most recent entry, also when
  it was stored before. Assigning to a key an \<open>OrderedDict\<close> already holds keeps the
  key's position, and \<open>set\<close> does not pop the key first (as \<open>get\<close> does). With
  \<open>maxsize = 100\<close>: after \<open>set(a)\<close>, \<open>set(b)\<close>, \<open>set(a)\<close> the order is still
  \<open>a, b\<close>, and the next eviction, forced by \<open>set(c, 99 bytes)\<close>, removes \<open>a\<close>
  although \<open>b\<close> is stored and older.
\<close>

theorem lru_set_overwrite_keeps_position:
  "(let c1 = lru_set (lru_init 100) ''a'' (new_entry 0 3600 ''x'');
        c2 = lru_set c1 ''b'' (new_entry 1 3601 ''y'');
        c3 = lru_set c2 ''a'' (new_entry 2 3602 ''z'');
        c4 = lru_set c3 ''c'' (new_entry 3 3603 (replicate 99 CHR ''w''))
    in keys_in_order c2 = [''a'', ''b'']
       \<and> keys_in_order c3 = [''a'', ''b'']
       \<and> last (keys_in_order c3) \<noteq> ''a''
       \<and> keys_in_order c4 = [''b'', ''c''])"
  by (simp add: lru_set_def lru_init_def new_entry_def keys_in_order_def)

section \<open>The hybrid cache: delete, failed writes, corrupt files\<close>

lemma map_of_od_setitem_same: "map_of (od_setitem k v d) k = Some v"
  by (induction d) auto

lemma map_of_od_pop_other: "k' \<noteq> k \<Longrightarrow> map_of (od_pop k d) k' = map_of d k'"
  by (induction d) auto

lemma lru_set_lookup: "map_of (cache (lru_set c k e)) k = Some e"
  by (simp add: lru_set_def Let_def map_of_od_setitem_same split: prod.splits)

lemma lru_remove_other:
  "k' \<noteq> k \<Longrightarrow> map_of (cache (lru_remove c k)) k' = map_of (cache c) k'"
  by (simp add: lru_remove_def map_of_od_pop_other split: option.splits)

lemma hybrid_get_memory_hit:
  assumes "map_of (cache (memory_cache h)) (md5_hex L K) = Some e" and "now < expires_at e"
  shows "fst (hybrid_get L io now h K dflt) = Some (data e)"
  using assms by (simp add: hybrid_get_def lru_get_def Let_def)

lemma hybrid_set_memory:
  "map_of (cache (memory_cache (snd (hybrid_set L io now h K P t)))) (md5_hex L K)
   = Some (new_entry now (now + ttl_or t (ttl h)) P)"
  by (simp add: hybrid_set_def Let_def lru_set_lookup split: write_outcome.splits)

lemma hybrid_delete_memory_other:
  "k' \<noteq> k \<Longrightarrow>
   map_of (cache (memory_cache (snd (hybrid_delete io h k)))) k' = map_of (cache (memory_cache h)) k'"
  by (simp add: hybrid_delete_def Let_def lru_remove_other split: option.splits)

lemma hybrid_delete_files_other:
  "k' \<noteq> k \<Longrightarrow> files (snd (hybrid_delete io h k)) k' = files h k'"
  by (simp add: hybrid_delete_def Let_def split: option.splits)

lemma hybrid_delete_absent_file_is_success:
  "files h key = None \<Longrightarrow> fst (hybrid_delete io h key) = True"
  by (simp add: hybrid_delete_def Let_def)

lemma hybrid_set_returns_False:
  "fst (hybrid_set L io now h K P t) = False \<longleftrightarrow> (\<exists>left. write_result io = WriteFailed left)"
  by (cases "write_result io") (simp_all add: hybrid_set_def Let_def)

text \<open>
  C2. The claim: \<open>delete(K)\<close> removes the entry of the logical key \<open>K\<close> from the
  memory store and the file \<open>cache_dir / md5_hex(K)\<close>, so \<open>get(K)\<close> misses after
  \<open>set(K, P)\<close> and \<open>delete(K)\<close>. The code: \<open>get\<close> and \<open>set\<close> hash the key, \<open>delete\<close>
  does not, so it removes the memory entry and the file named \<open>K\<close> itself. Whenever
  the digest of \<open>K\<close> differs from \<open>K\<close>, a successful \<open>set(K, P)\<close> followed by
  \<open>delete(K)\<close> leaves the file of \<open>K\<close> in place, and a \<open>get(K)\<close> before the expiry
  returns \<open>P\<close>.
\<close>

theorem hybrid_delete_unhashed_key:
  assumes "md5_hex L K \<noteq> K"
    and "fst (hybrid_set L io0 t0 h K P t) = True"
    and "t2 < t0 + ttl_or t (ttl h)"
  shows "fst (hybrid_get L io2 t2
              (snd (hybrid_delete io1 (snd (hybrid_set L io0 t0 h K P t)) K)) K None) = Some P
       \<and> files (snd (hybrid_delete io1 (snd (hybrid_set L io0 t0 h K P t)) K)) (md5_hex L K)
           = Some (file_frame L (t0 + ttl_or t (ttl h)) t0 P)"
proof -
  let ?h1 = "snd (hybrid_set L io0 t0 h K P t)"
  let ?h2 = "snd (hybrid_delete io1 ?h1 K)"
  let ?e = "new_entry t0 (t0 + ttl_or t (ttl h)) P"
  have w: "write_result io0 = Written"
    using assms(2) by (cases "write_result io0") (simp_all add: hybrid_set_def Let_def)
  have "map_of (cache (memory_cache ?h2)) (md5_hex L K) = Some ?e"
    using assms(1) by (simp add: hybrid_delete_memory_other hybrid_set_memory)
  moreover have "t2 < expires_at ?e"
    using assms(3) by (simp add: new_entry_def)
  ultimately have g: "fst (hybrid_get L io2 t2 ?h2 K None) = Some (data ?e)"
    by (rule hybrid_get_memory_hit)
  have f1: "files ?h1 (md5_hex L K) = Some (file_frame L (t0 + ttl_or t (ttl h)) t0 P)"
    using w by (simp add: hybrid_set_def Let_def)
  have f2: "files ?h2 (md5_hex L K) = files ?h1 (md5_hex L K)"
    using assms(1) by (simp add: hybrid_delete_files_other)
  show ?thesis using g f1 f2 by (simp add: new_entry_def)
qed

theorem hybrid_delete_unhashed_key_witness:
  "md5_hex known_libs ''k'' \<noteq> ''k''
   \<and> fst (hybrid_set known_libs no_faults 400 example_cache ''k'' ''payload'' None) = True
   \<and> (401::real) < 400 + ttl_or None (ttl example_cache)
   \<and> fst (hybrid_get known_libs no_faults 401
        (snd (hybrid_delete no_faults
           (snd (hybrid_set known_libs no_faults 400 example_cache ''k'' ''payload'' None)) ''k''))
        ''k'' None) = Some ''payload''"
proof -
  have a: "md5_hex known_libs ''k'' \<noteq> ''k''"
    by (simp add: known_libs_def md5_hex_known_def)
  have b: "fst (hybrid_set known_libs no_faults 400 example_cache ''k'' ''payload'' None) = True"
    by (simp add: hybrid_set_def no_faults_def Let_def)
  have c: "(401::real) < 400 + ttl_or None (ttl example_cache)"
    by (simp add: ttl_or_def example_cache_def hybrid_init_def)
  show ?thesis
    using hybrid_delete_unhashed_key [OF a b c, of no_faults no_faults] a b c by simp
qed

text \<open>
  C9. Whenever \<open>HybridCache.set(K, P)\<close> returns \<open>False\<close> (the file write failed), the
  memory store already holds the new entry for the hashed key, every \<open>get(K)\<close>
  before the entry's expiry returns \<open>P\<close>, and the cache file of \<open>K\<close> is what it was
  before the call: the two tiers differ.
\<close>

theorem hybrid_set_failed_write_keeps_memory_entry:
  assumes "fst (hybrid_set L io now h K P t) = False"
    and "t2 < now + ttl_or t (ttl h)"
  shows "map_of (cache (memory_cache (snd (hybrid_set L io now h K P t)))) (md5_hex L K)
           = Some (new_entry now (now + ttl_or t (ttl h)) P)
       \<and> fst (hybrid_get L io2 t2 (snd (hybrid_set L io now h K P t)) K dflt) = Some P
       \<and> files (snd (hybrid_set L io now h K P t)) (md5_hex L K) = files h (md5_hex L K)"
proof -
  let ?h1 = "snd (hybrid_set L io now h K P t)"
  let ?e = "new_entry now (now + ttl_or t (ttl h)) P"
  obtain left where w: "write_result io = WriteFailed left"
    using assms(1) hybrid_set_returns_False by blast
  have m: "map_of (cache (memory_cache ?h1)) (md5_hex L K) = Some ?e"
    by (rule hybrid_set_memory)
  have "t2 < expires_at ?e"
    using assms(2) by (simp add: new_entry_def)
  with m have g: "fst (hybrid_get L io2 t2 ?h1 K dflt) = Some (data ?e)"
    by (rule hybrid_get_memory_hit)
  have f: "files ?h1 (md5_hex L K) = files h (md5_hex L K)"
    using w by (simp add: hybrid_set_def Let_def)
  show ?thesis using m g f by (simp add: new_entry_def)
qed

theorem hybrid_set_failed_write_keeps_memory_entry_witness:
  "fst (hybrid_set known_libs disk_full 400 example_cache ''k'' ''payload'' None) = False
   \<and> (401::real) < 400 + ttl_or None (ttl example_cache)
   \<and> fst (hybrid_get known_libs no_faults 401
        (snd (hybrid_set known_libs disk_full 400 example_cache ''k'' ''payload'' None)) ''k'' None)
       = Some ''payload''
   \<and> files (snd (hybrid_set known_libs disk_full 400 example_cache ''k'' ''payload'' None))
        (md5_hex known_libs ''k'') = None"
proof -
  have a: "fst (hybrid_set known_libs disk_full 400 example_cache ''k'' ''payload'' None) = False"
    by (simp add: hybrid_set_def disk_full_def Let_def)
  have b: "(401::real) < 400 + ttl_or None (ttl example_cache)"
    by (simp add: ttl_or_def example_cache_def hybrid_init_def)
  have c: "files example_cache (md5_hex known_libs ''k'') = None"
    by (simp add: example_cache_def hybrid_init_def)
  show ?thesis
    using hybrid_set_failed_write_keeps_memory_entry [OF a b, of no_faults None] a b c by simp
qed

text \<open>
  C4, as the claim states it: a \<open>get\<close> that meets a corrupt file deletes the entry
  and reports a miss. It reports the miss, but the branch
  \<open>except Exception: ... return default\<close> deletes nothing: the corrupt file is
  still there after the call.
\<close>

theorem hybrid_get_corrupt_entry_not_deleted:
  "fst (hybrid_get known_libs no_faults 401 corrupt_cache ''k'' None) = None
   \<and> files (snd (hybrid_get known_libs no_faults 401 corrupt_cache ''k'' None))
        (md5_hex known_libs ''k'') = Some corrupt_file"
  by (simp add: hybrid_get_def lru_get_def corrupt_cache_def example_cache_def hybrid_init_def
      lru_init_def known_libs_def md5_hex_known_def corrupt_file_def from_bytes_big_def
      no_faults_def metadata_text_def Let_def)

lemma lru_get_miss_absent:
  "map_of (cache c) k = None \<Longrightarrow> lru_get now c k = (None, c)"
  by (simp add: lru_get_def)

lemma lru_get_miss_present:
  "map_of (cache c) k = Some e \<Longrightarrow> fst (lru_get now c k) = None \<Longrightarrow>
   \<not> now < expires_at e \<and>
   snd (lru_get now c k) = c\<lparr>cache := od_pop k (cache c), current_size := current_size c - entry_size e\<rparr>"
  by (simp add: lru_get_def Let_def split: if_splits)

text \<open>
  A file of at most 8 bytes (cut short inside its header) is unreadable whenever
  the JSON decoder rejects the empty text, as \<open>json.loads\<close> does.
\<close>

lemma short_file_unreadable:
  "json_loads L [] = None \<Longrightarrow> length content \<le> 8 \<Longrightarrow> metadata_unreadable L now content"
  by (simp add: metadata_unreadable_def)

text \<open>
  C4, amended: a \<open>get\<close> that misses the memory store and finds a file whose
  metadata is unreadable returns the default and removes no file: the files and
  the TTL are what they were, and the memory store is what the memory lookup left.
  When the key is not in the memory store the whole cache is unchanged; when the
  memory store holds an entry of the key, that entry is expired and the lookup
  has dropped it and subtracted its size.
\<close>

theorem hybrid_get_unreadable_metadata:
  assumes "fst (lru_get now (memory_cache h) (md5_hex L K)) = None"
    and "files h (md5_hex L K) = Some content"
    and "metadata_unreadable L now content"
  shows "fst (hybrid_get L io now h K dflt) = dflt
       \<and> files (snd (hybrid_get L io now h K dflt)) = files h
       \<and> ttl (snd (hybrid_get L io now h K dflt)) = ttl h
       \<and> memory_cache (snd (hybrid_get L io now h K dflt))
           = snd (lru_get now (memory_cache h) (md5_hex L K))
       \<and> (map_of (cache (memory_cache h)) (md5_hex L K) = None \<longrightarrow>
             snd (hybrid_get L io now h K dflt) = h)
       \<and> (\<forall>e. map_of (cache (memory_cache h)) (md5_hex L K) = Some e \<longrightarrow>
             \<not> now < expires_at e
           \<and> memory_cache (snd (hybrid_get L io now h K dflt))
               = (memory_cache h)\<lparr>cache := od_pop (md5_hex L K) (cache (memory_cache h)),
                                   current_size := current_size (memory_cache h) - entry_size e\<rparr>)"
proof -
  let ?k = "md5_hex L K"
  have r: "hybrid_get L io now h K dflt = (dflt, h\<lparr>memory_cache := snd (lru_get now (memory_cache h) ?k)\<rparr>)"
    using assms
    by (cases "lru_get now (memory_cache h) ?k")
       (auto simp: hybrid_get_def metadata_unreadable_def Let_def split: option.splits)
  have absent: "map_of (cache (memory_cache h)) ?k = None \<longrightarrow> snd (hybrid_get L io now h K dflt) = h"
    by (simp add: r lru_get_miss_absent)
  have present: "\<forall>e. map_of (cache (memory_cache h)) ?k = Some e \<longrightarrow>
             \<not> now < expires_at e
           \<and> memory_cache (snd (hybrid_get L io now h K dflt))
               = (memory_cache h)\<lparr>cache := od_pop ?k (cache (memory_cache h)),
                                   current_size := current_size (memory_cache h) - entry_size e\<rparr>"
    using lru_get_miss_present [OF _ assms(1)] by (simp add: r)
  show ?thesis using absent present by (simp add: r)
qed

theorem hybrid_get_unreadable_metadata_witness:
  "fst (lru_get 401 (memory_cache stale_corrupt_cache) (md5_hex known_libs ''k'')) = None
   \<and> files stale_corrupt_cache (md5_hex known_libs ''k'') = Some corrupt_file
   \<and> metadata_unreadable known_libs 401 corrupt_file
   \<and> keys_in_order (memory_cache stale_corrupt_cache) = [md5_hex known_libs ''k'']
   \<and> fst (hybrid_get known_libs no_faults 401 stale_corrupt_cache ''k'' None) = None
   \<and> files (snd (hybrid_get known_libs no_faults 401 stale_corrupt_cache ''k'' None))
        (md5_hex known_libs ''k'') = Some corrupt_file
   \<and> keys_in_order (memory_cache (snd (hybrid_get known_libs no_faults 401 stale_corrupt_cache ''k'' None)))
        = []
   \<and> hybrid_get known_libs no_faults 401 corrupt_cache ''k'' None = (None, corrupt_cache)"
proof -
  let ?k = "md5_hex known_libs ''k''"
  have a: "fst (lru_get 401 (memory_cache stale_corrupt_cache) ?k) = None"
    by (simp add: lru_get_def stale_corrupt_cache_def lru_set_def lru_init_def new_entry_def Let_def)
  have b: "files stale_corrupt_cache ?k = Some corrupt_file"
    by (simp add: stale_corrupt_cache_def corrupt_cache_def)
  have c: "metadata_unreadable known_libs 401 corrupt_file"
    by (simp add: metadata_unreadable_def known_libs_def corrupt_file_def from_bytes_big_def
        metadata_text_def)
  have m: "map_of (cache (memory_cache stale_corrupt_cache)) ?k = Some (new_entry 0 100 ''old'')"
    by (simp add: stale_corrupt_cache_def lru_set_def lru_init_def Let_def)
  have keys: "keys_in_order (memory_cache stale_corrupt_cache) = [?k]"
    by (simp add: keys_in_order_def stale_corrupt_cache_def lru_set_def lru_init_def Let_def)
  have popped: "od_pop ?k (cache (memory_cache stale_corrupt_cache)) = []"
    by (simp add: stale_corrupt_cache_def lru_set_def lru_init_def Let_def)
  have a': "fst (lru_get 401 (memory_cache corrupt_cache) ?k) = None"
    by (simp add: lru_get_def corrupt_cache_def example_cache_def hybrid_init_def lru_init_def)
  have b': "files corrupt_cache ?k = Some corrupt_file"
    by (simp add: corrupt_cache_def)
  have m': "map_of (cache (memory_cache corrupt_cache)) ?k = None"
    by (simp add: corrupt_cache_def example_cache_def hybrid_init_def lru_init_def)
  note stale = hybrid_get_unreadable_metadata [OF a b c, of no_faults None]
  note empty = hybrid_get_unreadable_metadata [OF a' b' c, of no_faults None]
  have s1: "fst (hybrid_get known_libs no_faults 401 stale_corrupt_cache ''k'' None) = None"
    using stale by simp
  have s2: "files (snd (hybrid_get known_libs no_faults 401 stale_corrupt_cache ''k'' None)) ?k
              = Some corrupt_file"
    using stale b by simp
  have s3: "keys_in_order (memory_cache (snd (hybrid_get known_libs no_faults 401 stale_corrupt_cache ''k'' None))) = []"
  proof -
    have "memory_cache (snd (hybrid_get known_libs no_faults 401 stale_corrupt_cache ''k'' None))
            = (memory_cache stale_corrupt_cache)
                \<lparr>cache := od_pop ?k (cache (memory_cache stale_corrupt_cache)),
                   current_size := current_size (memory_cache stale_corrupt_cache)
                                   - entry_size (new_entry 0 100 ''old'')\<rparr>"
      using stale m by blast
    then show ?thesis by (simp add: keys_in_order_def popped)
  qed
  have e1: "hybrid_get known_libs no_faults 401 corrupt_cache ''k'' None = (None, corrupt_cache)"
    using empty m' by (metis prod.collapse)
  show ?thesis using a b c keys s1 s2 s3 e1 by simp
qed

text \<open>
  A file cut short inside its payload is not recognised: the format stores no
  payload length, and \<open>get\<close> returns the bytes that are left as a hit.
\<close>

lemma hybrid_get_truncated_payload_is_hit:
  "fst (hybrid_get known_libs no_faults 401 truncated_cache ''k'' None) = Some ''pay''"
  by (simp add: hybrid_get_def lru_get_def truncated_cache_def example_cache_def hybrid_init_def
      lru_init_def known_libs_def md5_hex_known_def truncated_file_def from_bytes_big_def
      no_faults_def metadata_text_def metadata_json_def Let_def)

section \<open>The cache facades: download errors and the manifest TTL\<close>

lemma get_cached_init_segment_never_raises:
  "\<exists>r. fst (get_cached_init_segment L C io t_get t_set h url hdrs) = Inr r"
  by (auto simp: get_cached_init_segment_def split: prod.splits option.splits sum.splits)

lemma fetch_mpd_download_error:
  "download_file_with_retry C url hdrs = Inl e \<Longrightarrow>
   fetch_mpd L C now c url hdrs pd pid = (Inl e, c)"
  by (simp add: fetch_mpd_def)

lemma get_cached_mpd_cold:
  "fst (async_get t_get c url None) = None \<Longrightarrow>
   get_cached_mpd L C t_get t_set c url hdrs pd pid =
     fetch_mpd L C t_set (snd (async_get t_get c url None)) url hdrs pd pid"
  by (cases "async_get t_get c url None") (auto simp: get_cached_mpd_def split: option.splits)

text \<open>
  C7, as the claim states it: a \<open>DownloadError\<close> on a cold cache is re-raised by
  \<open>get_cached_init_segment\<close> too. With an empty cache and a downloader that raises
  \<open>DownloadError\<close>, \<open>get_cached_init_segment\<close> returns \<open>None\<close>: its
  \<open>except Exception\<close> branch logs the error and returns.
\<close>

theorem init_segment_download_error_not_raised:
  "fst (get_cached_init_segment known_libs offline no_faults 400 401 example_cache
          ''http://cdn.example/init.mp4'' []) = Inr None"
  by (simp add: get_cached_init_segment_def hybrid_get_def lru_get_def example_cache_def
      hybrid_init_def lru_init_def offline_def Let_def)

text \<open>
  C7, amended: when the downloader raises \<open>DownloadError\<close> on a cold cache,
  \<open>get_cached_mpd\<close> raises it to its caller, and \<open>get_cached_init_segment\<close> returns
  \<open>None\<close> instead of raising.
\<close>

theorem download_error_mpd_raised_init_segment_none:
  assumes "download_file_with_retry C url hdrs = Inl DownloadError"
    and "fst (async_get t_get c url None) = None"
    and "fst (hybrid_get L io t_get h url None) = None"
  shows "fst (get_cached_mpd L C t_get t_set c url hdrs pd pid) = Inl DownloadError
       \<and> fst (get_cached_init_segment L C io t_get t_set h url hdrs) = Inr None"
proof -
  have "fst (get_cached_mpd L C t_get t_set c url hdrs pd pid) = Inl DownloadError"
    using assms(1,2) by (simp add: get_cached_mpd_cold fetch_mpd_download_error)
  moreover have "fst (get_cached_init_segment L C io t_get t_set h url hdrs) = Inr None"
    using assms(1,3)
    by (cases "hybrid_get L io t_get h url None") (simp add: get_cached_init_segment_def)
  ultimately show ?thesis by simp
qed

theorem download_error_mpd_raised_init_segment_none_witness:
  "download_file_with_retry offline ''http://cdn.example/init.mp4'' [] = Inl DownloadError
   \<and> fst (async_get 400 (lru_init 1000) ''http://cdn.example/init.mp4'' None) = None
   \<and> fst (hybrid_get known_libs no_faults 400 example_cache ''http://cdn.example/init.mp4'' None) = None
   \<and> fst (get_cached_mpd known_libs offline 400 401 (lru_init 1000)
            ''http://cdn.example/init.mp4'' [] False None) = Inl DownloadError
   \<and> fst (get_cached_init_segment known_libs offline no_faults 400 401 example_cache
            ''http://cdn.example/init.mp4'' []) = Inr None"
proof -
  have a: "download_file_with_retry offline ''http://cdn.example/init.mp4'' [] = Inl DownloadError"
    by (simp add: offline_def)
  have b: "fst (async_get 400 (lru_init 1000) ''http://cdn.example/init.mp4'' None) = None"
    by (simp add: async_get_def lru_get_def lru_init_def)
  have c: "fst (hybrid_get known_libs no_faults 400 example_cache ''http://cdn.example/init.mp4'' None) = None"
    by (simp add: hybrid_get_def lru_get_def example_cache_def hybrid_init_def lru_init_def Let_def)
  show ?thesis
    using download_error_mpd_raised_init_segment_none
            [OF a b c, where t_set = 401 and pd = False and pid = None] a b c
    by simp
qed

lemma async_set_entry:
  "map_of (cache (snd (async_set now c key d t))) key
   = Some (new_entry now (now + ttl_or t 3600) d)"
  by (simp add: async_set_def Let_def lru_set_lookup)

lemma cache_ttl_cases:
  "cache_ttl mup = (case mup of None \<Rightarrow> 3600 | Some m \<Rightarrow> if m > 0 then m else 1)"
  by (cases mup) (auto simp: cache_ttl_def)

lemma cache_ttl_pos: "cache_ttl mup > 0"
  by (cases mup) (auto simp: cache_ttl_def)

lemma fetch_mpd_caches:
  assumes "fetch_mpd L C now c url hdrs pd pid = (Inr parsed, c')"
  shows "\<exists>content raw.
           download_file_with_retry C url hdrs = Inr content
         \<and> parse_mpd C content = Inr raw
         \<and> map_of (cache c') url
             = Some (new_entry now (now + cache_ttl (minimumUpdatePeriod parsed)) (json_dumps L raw))"
proof -
  obtain content where d: "download_file_with_retry C url hdrs = Inr content"
    using assms by (cases "download_file_with_retry C url hdrs") (auto simp: fetch_mpd_def)
  obtain raw where p: "parse_mpd C content = Inr raw"
    using assms d by (cases "parse_mpd C content") (auto simp: fetch_mpd_def)
  obtain parsed' where q: "parse_mpd_dict C now raw url pd pid = Inr parsed'"
    using assms d p by (cases "parse_mpd_dict C now raw url pd pid") (auto simp: fetch_mpd_def)
  have r: "parsed' = parsed"
    and s: "c' = snd (async_set now c url (json_dumps L raw)
                        (Some (cache_ttl (minimumUpdatePeriod parsed'))))"
    using assms d p q by (auto simp: fetch_mpd_def Let_def split: prod.splits)
  have nz: "ttl_or (Some (cache_ttl (minimumUpdatePeriod parsed))) 3600
              = cache_ttl (minimumUpdatePeriod parsed)"
    using cache_ttl_pos [of "minimumUpdatePeriod parsed"] by (simp add: ttl_or_def)
  show ?thesis
    using d p r s nz
      async_set_entry [of now c url "json_dumps L raw" "Some (cache_ttl (minimumUpdatePeriod parsed))"]
    by auto
qed

lemma async_get_fresh:
  "map_of (cache c) k = Some e \<Longrightarrow> now < expires_at e \<Longrightarrow>
   fst (async_get now c k dflt) = Some (data e)"
  by (simp add: async_get_def lru_get_def Let_def)

lemma async_get_stale:
  "map_of (cache c) k = Some e \<Longrightarrow> \<not> now < expires_at e \<Longrightarrow>
   fst (async_get now c k dflt) = dflt"
  by (simp add: async_get_def lru_get_def Let_def)

text \<open>
  C5. Whenever \<open>get_cached_mpd\<close> misses the cache and returns a parsed manifest, the
  cache holds under the manifest URL the JSON text of the raw dictionary
  (\<open>parse_mpd\<close> of the download), expiring at the time of caching plus the
  manifest's \<open>minimumUpdatePeriod\<close> when that is present and positive, plus 1 second
  when it is present and not positive, plus 3600 seconds when it is absent. With
  \<open>minimumUpdatePeriod = 5\<close> a lookup 4 seconds after caching is a hit and one 6
  seconds after is a miss.
\<close>

theorem get_cached_mpd_ttl:
  assumes "fst (async_get t_get c url None) = None"
    and "get_cached_mpd L C t_get t_set c url hdrs pd pid = (Inr parsed, c')"
  shows "\<exists>content raw e.
           download_file_with_retry C url hdrs = Inr content
         \<and> parse_mpd C content = Inr raw
         \<and> map_of (cache c') url = Some e
         \<and> data e = json_dumps L raw
         \<and> expires_at e = t_set + (case minimumUpdatePeriod parsed of
                                      None \<Rightarrow> 3600
                                    | Some mup \<Rightarrow> if mup > 0 then mup else 1)
         \<and> (minimumUpdatePeriod parsed = Some 5 \<longrightarrow>
              fst (async_get (t_set + 4) c' url None) = Some (json_dumps L raw)
            \<and> fst (async_get (t_set + 6) c' url None) = None)"
proof -
  have f: "fetch_mpd L C t_set (snd (async_get t_get c url None)) url hdrs pd pid = (Inr parsed, c')"
    using assms by (simp add: get_cached_mpd_cold)
  from fetch_mpd_caches [OF f] obtain content raw where
    d: "download_file_with_retry C url hdrs = Inr content" and
    p: "parse_mpd C content = Inr raw" and
    m: "map_of (cache c') url
          = Some (new_entry t_set (t_set + cache_ttl (minimumUpdatePeriod parsed)) (json_dumps L raw))"
    by blast
  let ?e = "new_entry t_set (t_set + cache_ttl (minimumUpdatePeriod parsed)) (json_dumps L raw)"
  have e1: "data ?e = json_dumps L raw" by (simp add: new_entry_def)
  have e2: "expires_at ?e = t_set + (case minimumUpdatePeriod parsed of
                                      None \<Rightarrow> 3600
                                    | Some mup \<Rightarrow> if mup > 0 then mup else 1)"
    by (simp add: new_entry_def cache_ttl_cases)
  have s6: "minimumUpdatePeriod parsed = Some 5 \<longrightarrow>
              fst (async_get (t_set + 4) c' url None) = Some (json_dumps L raw)
            \<and> fst (async_get (t_set + 6) c' url None) = None"
  proof
    assume five: "minimumUpdatePeriod parsed = Some 5"
    have x: "expires_at ?e = t_set + 5"
      using five by (simp add: new_entry_def cache_ttl_def)
    have "t_set + 4 < expires_at ?e" by (simp add: x)
    from async_get_fresh [OF m this]
    have hit: "fst (async_get (t_set + 4) c' url None) = Some (json_dumps L raw)"
      by (simp add: e1)
    have "\<not> t_set + 6 < expires_at ?e" by (simp add: x)
    from async_get_stale [OF m this]
    have miss: "fst (async_get (t_set + 6) c' url None) = None" .
    show "fst (async_get (t_set + 4) c' url None) = Some (json_dumps L raw)
            \<and> fst (async_get (t_set + 6) c' url None) = None"
      using hit miss by simp
  qed
  show ?thesis using d p m e1 e2 s6 by blast
qed

theorem get_cached_mpd_ttl_witness:
  \<open>fst (async_get 400 (lru_init 1000) ''http://cdn.example/live.mpd'' None) = None
   \<and> fst (get_cached_mpd known_libs online 400 401 (lru_init 1000)
            ''http://cdn.example/live.mpd'' [] False None) = Inr example_mpd
   \<and> minimumUpdatePeriod example_mpd = Some 5
   \<and> fst (async_get (401 + 4)
        (snd (get_cached_mpd known_libs online 400 401 (lru_init 1000)
                ''http://cdn.example/live.mpd'' [] False None))
        ''http://cdn.example/live.mpd'' None) = Some ''{"MPD": null}''
   \<and> fst (async_get (401 + 6)
        (snd (get_cached_mpd known_libs online 400 401 (lru_init 1000)
                ''http://cdn.example/live.mpd'' [] False None))
        ''http://cdn.example/live.mpd'' None) = None\<close>
proof -
  let ?r = "get_cached_mpd known_libs online 400 401 (lru_init 1000)
              ''http://cdn.example/live.mpd'' [] False None"
  have a: "fst (async_get 400 (lru_init 1000) ''http://cdn.example/live.mpd'' None) = None"
    by (simp add: async_get_def lru_get_def lru_init_def)
  have b: "fst ?r = Inr example_mpd"
    by (simp add: get_cached_mpd_def fetch_mpd_def async_get_def async_set_def lru_get_def
        lru_init_def online_def Let_def split: prod.splits)
  have b': "?r = (Inr example_mpd, snd ?r)"
    using b by (metis prod.collapse)
  have m: "minimumUpdatePeriod example_mpd = Some 5"
    by (simp add: example_mpd_def)
  from get_cached_mpd_ttl [OF a b'] obtain content raw where
    p: "parse_mpd online content = Inr raw" and
    s6: "minimumUpdatePeriod example_mpd = Some 5 \<longrightarrow>
           fst (async_get (401 + 4) (snd ?r) ''http://cdn.example/live.mpd'' None)
             = Some (json_dumps known_libs raw)
         \<and> fst (async_get (401 + 6) (snd ?r) ''http://cdn.example/live.mpd'' None) = None"
    by blast
  have raw: "raw = raw_manifest" using p by (simp add: online_def)
  have j: \<open>json_dumps known_libs raw_manifest = ''{"MPD": null}''\<close>
    by (simp add: known_libs_def raw_manifest_def metadata_json_def)
  show ?thesis using a b m s6 raw j by simp
qed

section \<open>The translator: empty profiles and the target duration\<close>



lemma playlist_loop_skips_empty_single:
  "segments p = [] \<Longrightarrow>
   build_hls_playlist_hls C mpd [p] req =
     Inr ([''#EXTM3U'', ''#EXT-X-VERSION:6''] @ (if \<not> isLive mpd then [''#EXT-X-ENDLIST''] else []),
          [''No segments found for profile '' @ profile_id p])"
  by (simp add: build_hls_playlist_hls_def)

text \<open>
  C3. The claim: when the first profile has no segments, \<open>build_hls_playlist\<close> skips
  it with a warning and still emits the headers with the defaults
  \<open>#EXT-X-TARGETDURATION:5\<close> and \<open>#EXT-X-MEDIA-SEQUENCE:0\<close> and the playlist type.
  The code: the \<open>continue\<close> of line 171 comes before the header block, so the branch
  of line 175 that sets these defaults is never reached. For one profile without
  segments of a VOD manifest the result is the preamble and \<open>#EXT-X-ENDLIST\<close> only.
\<close>

theorem empty_first_profile_emits_no_headers:
  "build_hls_playlist_hls plain_urls (vod []) [video_profile ''v1'' 1000000 []] example_request
     = Inr ([''#EXTM3U'', ''#EXT-X-VERSION:6'', ''#EXT-X-ENDLIST''],
            [''No segments found for profile v1''])
   \<and> build_hls_playlist plain_urls (vod []) [video_profile ''v1'' 1000000 []] example_request
     = Inr (''#EXTM3U'' @ [CHR 0x0A] @ ''#EXT-X-VERSION:6'' @ [CHR 0x0A] @ ''#EXT-X-ENDLIST'')"
  by (simp add: build_hls_playlist_def build_hls_playlist_hls_def video_profile_def vod_def)


lemma py_gt_NaN_right [simp]: "py_gt a NaN = False"
  by (cases a) auto

lemma py_gt_PosInf_right [simp]: "py_gt a PosInf = False"
  by (cases a) auto

lemma py_max_NaN [simp]: "py_max NaN xs = NaN"
  by (induction xs) auto

lemma py_max_PosInf [simp]: "py_max PosInf xs = PosInf"
  by (induction xs) auto

lemma py_max_Fin:
  "py_max (Fin c) xs = Fin x \<Longrightarrow> x = Max (insert c (set (finite_values xs)))"
proof (induction xs arbitrary: c)
  case Nil
  then show ?case by simp
next
  case (Cons y ys)
  show ?case
  proof (cases y)
    case (Fin d)
    have "py_max (Fin (if d > c then d else c)) ys = Fin x"
      using Cons.prems Fin by (simp split: if_splits)
    from Cons.IH [OF this]
    have "x = Max (insert (if d > c then d else c) (set (finite_values ys)))" .
    also have "\<dots> = Max (insert c (insert d (set (finite_values ys))))"
      by (cases "finite_values ys = []") (auto simp: max_def)
    finally show ?thesis using Fin by simp
  next
    case PosInf
    then show ?thesis using Cons.prems by simp
  next
    case NegInf
    then show ?thesis using Cons by simp
  next
    case NaN
    then show ?thesis using Cons by simp
  qed
qed

lemma py_max_NegInf:
  "py_max NegInf xs = Fin x \<Longrightarrow> finite_values xs \<noteq> [] \<and> x = Max (set (finite_values xs))"
proof (induction xs)
  case Nil
  then show ?case by simp
next
  case (Cons y ys)
  show ?case
  proof (cases y)
    case (Fin d)
    then have "py_max (Fin d) ys = Fin x" using Cons.prems by simp
    from py_max_Fin [OF this] show ?thesis using Fin by simp
  next
    case PosInf
    then show ?thesis using Cons.prems by simp
  next
    case NegInf
    then show ?thesis using Cons by simp
  next
    case NaN
    then show ?thesis using Cons by simp
  qed
qed

lemma py_max_finite:
  assumes "py_max v vs = Fin x"
  shows "finite_values (v # vs) \<noteq> [] \<and> x = Max (set (finite_values (v # vs)))"
proof (cases v)
  case (Fin c)
  then show ?thesis using py_max_Fin [of c vs x] assms by simp
next
  case PosInf
  then show ?thesis using assms by simp
next
  case NegInf
  then show ?thesis using py_max_NegInf [of vs x] assms by simp
next
  case NaN
  then show ?thesis using assms by simp
qed

lemma py_max_all_finite:
  "list_all is_finite (v # vs) \<Longrightarrow> \<exists>x. py_max v vs = Fin x"
proof (induction vs arbitrary: v)
  case Nil
  then show ?case by (cases v) auto
next
  case (Cons y ys)
  then show ?case by (cases v; cases y) auto
qed


lemma playlist_headers_value:
  assumes "segments p \<noteq> []" and "playlist_headers mpd p = Inr (hdr, ws)"
  shows "hdr = [''#EXT-X-TARGETDURATION:'' @ str_int (spec_target_duration (segments p)),
                hdr ! 1, hdr ! 2] \<and> length hdr = 3"
proof -
  obtain s0 rest where segs: "segments p = s0 # rest"
    using assms(1) by (cases "segments p") auto
  show ?thesis
  proof (cases "extinf_values (segments p)")
    case Nil
    then have "spec_target_duration (segments p) = 5"
      by (simp add: spec_target_duration_def)
    then show ?thesis
      using assms(2) segs Nil by (auto simp: playlist_headers_def Let_def)
  next
    case (Cons v vs)
    obtain td where c: "math_ceil (py_max v vs) = Inr td"
      using assms(2) segs Cons
      by (cases "math_ceil (py_max v vs)") (auto simp: playlist_headers_def Let_def)
    then obtain x where x: "py_max v vs = Fin x" and td: "td = \<lceil>x\<rceil>"
      by (cases "py_max v vs") auto
    from py_max_finite [OF x] Cons
    have "spec_target_duration (segments p) = td"
      by (simp add: spec_target_duration_def td)
    then show ?thesis
      using assms(2) segs Cons c by (auto simp: playlist_headers_def Let_def)
  qed
qed

lemma playlist_headers_returns_iff:
  assumes "segments p \<noteq> []"
  shows "(\<exists>hdr ws. playlist_headers mpd p = Inr (hdr, ws)) \<longleftrightarrow>
         (case extinf_values (segments p) of [] \<Rightarrow> True | v # vs \<Rightarrow> is_finite (py_max v vs))"
proof -
  obtain s0 rest where segs: "segments p = s0 # rest"
    using assms(1) by (cases "segments p") auto
  show ?thesis
  proof (cases "extinf_values (segments p)")
    case Nil
    then show ?thesis using segs by (simp add: playlist_headers_def Let_def)
  next
    case (Cons v vs)
    then show ?thesis using segs
      by (cases "py_max v vs") (simp_all add: playlist_headers_def Let_def)
  qed
qed

lemma build_hls_playlist_hls_third_line:
  assumes "segments p \<noteq> []" and "build_hls_playlist_hls C mpd (p # ps) req = Inr (hls, ws)"
  shows "\<exists>hdr hws. playlist_headers mpd p = Inr (hdr, hws) \<and> hls ! 2 = hd hdr"
proof -
  obtain hdr hws where h: "playlist_headers mpd p = Inr (hdr, hws)"
    using assms by (cases "playlist_headers mpd p") (auto simp: build_hls_playlist_hls_def)
  from playlist_headers_value [OF assms(1) h] obtain a b c where hdr: "hdr = [a, b, c]"
    by blast
  have "hls ! 2 = a"
    using assms h hdr
    by (auto simp: build_hls_playlist_hls_def split: sum.splits prod.splits)
  then show ?thesis using h hdr by simp
qed

text \<open>
  C6, amended. For a first profile with segments: whenever the playlist is
  returned its third line, and whenever the header block completes its first
  line, is \<open>#EXT-X-TARGETDURATION:\<close> followed by the ceiling of the maximum of the
  finite numeric \<open>extinf\<close> values, or by 5 when there is none; the header block
  completes exactly when no \<open>extinf\<close> is a number or Python's \<open>max\<close> of the numeric
  values is finite, which is the case when all of them are finite.
\<close>

theorem target_duration_rule:
  assumes "segments p \<noteq> []"
  shows "(\<forall>hls ws. build_hls_playlist_hls C mpd (p # ps) req = Inr (hls, ws) \<longrightarrow>
            hls ! 2 = ''#EXT-X-TARGETDURATION:'' @ str_int (spec_target_duration (segments p)))
       \<and> (\<forall>hdr ws. playlist_headers mpd p = Inr (hdr, ws) \<longrightarrow>
            hd hdr = ''#EXT-X-TARGETDURATION:'' @ str_int (spec_target_duration (segments p)))
       \<and> ((\<exists>hdr ws. playlist_headers mpd p = Inr (hdr, ws)) \<longleftrightarrow>
            (case extinf_values (segments p) of
               [] \<Rightarrow> True
             | v # vs \<Rightarrow> is_finite (py_max v vs)))
       \<and> (list_all is_finite (extinf_values (segments p)) \<longrightarrow>
            (\<exists>hdr ws. playlist_headers mpd p = Inr (hdr, ws)))"
proof -
  have b: "\<forall>hdr ws. playlist_headers mpd p = Inr (hdr, ws) \<longrightarrow>
            hd hdr = ''#EXT-X-TARGETDURATION:'' @ str_int (spec_target_duration (segments p))"
  proof (intro allI impI)
    fix hdr ws assume "playlist_headers mpd p = Inr (hdr, ws)"
    from playlist_headers_value [OF assms this]
    obtain y z where "hdr = [''#EXT-X-TARGETDURATION:'' @ str_int (spec_target_duration (segments p)), y, z]"
      by blast
    then show "hd hdr = ''#EXT-X-TARGETDURATION:'' @ str_int (spec_target_duration (segments p))"
      by simp
  qed
  have a: "\<forall>hls ws. build_hls_playlist_hls C mpd (p # ps) req = Inr (hls, ws) \<longrightarrow>
            hls ! 2 = ''#EXT-X-TARGETDURATION:'' @ str_int (spec_target_duration (segments p))"
    using build_hls_playlist_hls_third_line [OF assms] b by metis
  have c: "(\<exists>hdr ws. playlist_headers mpd p = Inr (hdr, ws)) \<longleftrightarrow>
            (case extinf_values (segments p) of
               [] \<Rightarrow> True
             | v # vs \<Rightarrow> is_finite (py_max v vs))"
    by (rule playlist_headers_returns_iff [OF assms])
  have d: "list_all is_finite (extinf_values (segments p)) \<longrightarrow>
            (\<exists>hdr ws. playlist_headers mpd p = Inr (hdr, ws))"
  proof
    assume fin: "list_all is_finite (extinf_values (segments p))"
    show "\<exists>hdr ws. playlist_headers mpd p = Inr (hdr, ws)"
    proof (cases "extinf_values (segments p)")
      case Nil
      then show ?thesis using c by simp
    next
      case (Cons v vs)
      then obtain x where "py_max v vs = Fin x"
        using py_max_all_finite [of v vs] fin by auto
      then show ?thesis using c Cons by simp
    qed
  qed
  show ?thesis using a b c d by blast
qed

text \<open>
  C6, as the claim states it: the target duration is the ceiling of the maximum of
  the finite numeric \<open>extinf\<close> values. The code filters by type only
  (\<open>isinstance(v, (float, int))\<close>), so an infinite \<open>extinf\<close> enters \<open>max\<close>: for the
  segments \<open>4.0, inf\<close> the finite values give 4, and the call raises
  \<open>OverflowError\<close> in \<open>math.ceil\<close>.
\<close>

theorem target_duration_nonfinite_raises:
  "spec_target_duration inf_segments = 4
   \<and> playlist_headers (vod []) (video_profile ''v1'' 1000000 inf_segments) = Inl OverflowError
   \<and> build_hls_playlist plain_urls (vod []) [video_profile ''v1'' 1000000 inf_segments] example_request
       = Inl OverflowError"
  by (simp add: spec_target_duration_def inf_segments_def seg_def playlist_headers_def
      video_profile_def vod_def build_hls_playlist_def build_hls_playlist_hls_def Let_def)

theorem target_duration_rule_witness:
  "segments (video_profile ''v1'' 1000000 s3_segments) \<noteq> []
   \<and> list_all is_finite (extinf_values (segments (video_profile ''v1'' 1000000 s3_segments)))
   \<and> spec_target_duration (segments (video_profile ''v1'' 1000000 s3_segments)) = 5
   \<and> (\<exists>hls ws. build_hls_playlist_hls plain_urls (vod []) [video_profile ''v1'' 1000000 s3_segments]
          example_request = Inr (hls, ws)
        \<and> hls ! 2 = ''#EXT-X-TARGETDURATION:5''
        \<and> hls ! 5 = ''#EXTINF:4.000,'')"
proof -
  let ?p = "video_profile ''v1'' 1000000 s3_segments"
  have a: "segments ?p \<noteq> []"
    by (simp add: video_profile_def s3_segments_def)
  have f: "list_all is_finite (extinf_values (segments ?p))"
    by (simp add: video_profile_def s3_segments_def seg_def)
  have s: "spec_target_duration (segments ?p) = 5"
    by (simp add: spec_target_duration_def video_profile_def s3_segments_def seg_def)
  have i: "str_int 5 = ''5''"
    by (simp add: str_int_def)
  obtain hls ws where r: "build_hls_playlist_hls plain_urls (vod []) [?p] example_request = Inr (hls, ws)"
    and five: "hls ! 5 = ''#EXTINF:4.000,''"
    by (simp add: build_hls_playlist_hls_def playlist_headers_def video_profile_def s3_segments_def
        seg_def vod_def segment_lines_def format_3f_real_def round_half_even_def Let_def)
  have "hls ! 2 = ''#EXT-X-TARGETDURATION:'' @ str_int (spec_target_duration (segments ?p))"
    using target_duration_rule [OF a, of plain_urls "vod []" "[]" example_request] r by blast
  then have "hls ! 2 = ''#EXT-X-TARGETDURATION:5''"
    by (simp add: s i)
  then show ?thesis using a f s r five by blast
qed

text \<open>
  The spec's target duration does not depend on the code's filter: it is the same
  value computed from the segments' finite numbers directly. An \<open>int\<close> and a \<open>bool\<close>
  count, a string does not.
\<close>

lemma finite_values_extinf_values:
  "finite_values (extinf_values segs) = List.map_filter (\<lambda>s. finite_number (extinf s)) segs"
proof (induction segs)
  case Nil
  show ?case by (simp add: map_filter_simps)
next
  case (Cons s segs)
  show ?case
  proof (cases "extinf s")
    case None
    then show ?thesis using Cons by (simp add: map_filter_simps)
  next
    case (Some v)
    show ?thesis
    proof (cases v)
      case (PyFloat f)
      then show ?thesis using Cons Some by (cases f) (simp_all add: map_filter_simps)
    qed (use Cons Some in \<open>simp_all add: map_filter_simps\<close>)
  qed
qed

lemma spec_target_duration_direct:
  "spec_target_duration segs =
     (if List.map_filter (\<lambda>s. finite_number (extinf s)) segs = [] then 5
      else \<lceil>Max (set (List.map_filter (\<lambda>s. finite_number (extinf s)) segs))\<rceil>)"
  by (simp add: spec_target_duration_def finite_values_extinf_values)

lemma target_duration_counts_int_and_bool:
  "playlist_headers (vod [])
     (video_profile ''v1'' 1000000
        [seg ''s0'' (Some (PyBool True)) 0, seg ''s1'' (Some (PyInt 6)) 1,
         seg ''s2'' (Some (PyFloat (Fin 4.5))) 2, seg ''s3'' (Some (PyStr ''9'')) 3])
   = Inr ([''#EXT-X-TARGETDURATION:6'', ''#EXT-X-MEDIA-SEQUENCE:0'', ''#EXT-X-PLAYLIST-TYPE:VOD''], [])"
  by (simp add: playlist_headers_def video_profile_def vod_def seg_def str_int_def Let_def)

section \<open>The translator: the renditions of the master manifest\<close>

lemma od_setitem_keys:
  "map fst (od_setitem k v d) = (if k \<in> set (map fst d) then map fst d else map fst d @ [k])"
  by (induction d) (force+)

lemma od_setitem_overwrite: "od_setitem k v (od_setitem k v' d) = od_setitem k v d"
  by (induction d) auto

lemma od_setitem_commute:
  "k \<noteq> k' \<Longrightarrow> k \<in> set (map fst d) \<or> k' \<in> set (map fst d) \<Longrightarrow>
   od_setitem k v (od_setitem k' v' d) = od_setitem k' v' (od_setitem k v d)"
proof (induction d)
  case Nil
  then show ?case by simp
next
  case (Cons a d)
  obtain x y where a: "a = (x, y)" by (cases a) auto
  show ?case
  proof (cases "x = k \<or> x = k'")
    case True
    then show ?thesis using Cons.prems(1) a by auto
  next
    case False
    then have "k \<in> set (map fst d) \<or> k' \<in> set (map fst d)"
      using Cons.prems(2) a by auto
    from Cons.IH [OF Cons.prems(1) this] show ?thesis using False a by simp
  qed
qed

lemma od_setitem_has_key: "k \<in> set (map fst (od_setitem k v d))"
  by (simp only: od_setitem_keys) auto

lemma od_setitem_keeps_key: "k' \<in> set (map fst d) \<Longrightarrow> k' \<in> set (map fst (od_setitem k v d))"
  by (simp only: od_setitem_keys) auto

lemma profile_query_absorbs:
  "profile_query a key_id key (profile_query b key_id key qp) = profile_query a key_id key qp"
proof -
  let ?kv = "or_empty key" and ?iv = "or_empty key_id"
  let ?W = "od_setitem ''profile_id'' a qp"
  let ?Y = "od_setitem ''profile_id'' b qp"
  let ?X = "od_setitem ''key_id'' ?iv ?Y"
  have pY: "''profile_id'' \<in> set (map fst ?Y)" by (rule od_setitem_has_key)
  have pX: "''profile_id'' \<in> set (map fst ?X)" using pY by (rule od_setitem_keeps_key)
  have s1: "od_setitem ''profile_id'' a (od_setitem ''key'' ?kv ?X)
              = od_setitem ''key'' ?kv (od_setitem ''profile_id'' a ?X)"
    using pX by (intro od_setitem_commute) auto
  have s2: "od_setitem ''profile_id'' a ?X = od_setitem ''key_id'' ?iv (od_setitem ''profile_id'' a ?Y)"
    using pY by (intro od_setitem_commute) auto
  have s3: "od_setitem ''profile_id'' a ?Y = ?W" by (rule od_setitem_overwrite)
  let ?Z = "od_setitem ''key_id'' ?iv ?W"
  have kZ: "''key_id'' \<in> set (map fst ?Z)" by (rule od_setitem_has_key)
  have s4: "od_setitem ''key_id'' ?iv (od_setitem ''key'' ?kv ?Z)
              = od_setitem ''key'' ?kv (od_setitem ''key_id'' ?iv ?Z)"
    using kZ by (intro od_setitem_commute) auto
  have s5: "od_setitem ''key_id'' ?iv ?Z = ?Z" by (rule od_setitem_overwrite)
  have "profile_query a key_id key (profile_query b key_id key qp)
          = od_setitem ''key'' ?kv (od_setitem ''key_id'' ?iv
              (od_setitem ''profile_id'' a (od_setitem ''key'' ?kv ?X)))"
    by (simp add: profile_query_def)
  also have "\<dots> = od_setitem ''key'' ?kv (od_setitem ''key_id'' ?iv (od_setitem ''key'' ?kv ?Z))"
    by (simp only: s1 s2 s3)
  also have "\<dots> = od_setitem ''key'' ?kv (od_setitem ''key'' ?kv ?Z)"
    by (simp only: s4 s5)
  also have "\<dots> = od_setitem ''key'' ?kv ?Z"
    by (rule od_setitem_overwrite)
  also have "\<dots> = profile_query a key_id key qp"
    by (simp add: profile_query_def)
  finally show ?thesis .
qed

lemma ids_in_order_Nil [simp]: "ids_in_order [] = []"
  by (simp add: ids_in_order_def)

lemma ids_in_order_snoc:
  "ids_in_order (xs @ [x]) = (if x \<in> set xs then ids_in_order xs else ids_in_order xs @ [x])"
  by (simp add: ids_in_order_def)

lemma distinct_ids_in_order [simp]: "distinct (ids_in_order xs)"
  by (simp add: ids_in_order_def)

lemma set_ids_in_order [simp]: "set (ids_in_order xs) = set xs"
  by (simp add: ids_in_order_def)

lemma length_ids_in_order: "length (ids_in_order xs) = card (set xs)"
  by (metis distinct_card distinct_ids_in_order set_ids_in_order)

lemma od_setitem_map:
  "distinct ids \<Longrightarrow>
   od_setitem k v (map (\<lambda>i. (i, g i)) ids)
     = map (\<lambda>i. (i, if i = k then v else g i)) (if k \<in> set ids then ids else ids @ [k])"
  by (induction ids) auto

lemma last_with_id_Nil [simp]: "last_with_id i [] = None"
  by (simp add: last_with_id_def)

lemma last_with_id_snoc:
  "last_with_id i (ps @ [p]) = (if profile_id p = i then Some p else last_with_id i ps)"
  by (simp add: last_with_id_def)

lemma last_with_id_Some:
  "i \<in> profile_id ` set ps \<Longrightarrow>
   \<exists>p. last_with_id i ps = Some p \<and> p \<in> set ps \<and> profile_id p = i"
proof -
  assume "i \<in> profile_id ` set ps"
  then have ne: "filter (\<lambda>q. profile_id q = i) ps \<noteq> []"
    by (auto simp: filter_empty_conv)
  then have "last (filter (\<lambda>q. profile_id q = i) ps) \<in> set (filter (\<lambda>q. profile_id q = i) ps)"
    by (rule last_in_set)
  then show ?thesis using ne by (auto simp: last_with_id_def)
qed

text \<open>
  What one round of the loop does to a dictionary, and the state of the loop
  after the profiles \<open>ps\<close>.
\<close>

lemma bucket_step:
  assumes "profile_id p = k"
  shows "od_setitem k (f p)
           (map (\<lambda>i. (i, f (the (last_with_id i vs)))) (ids_in_order (map profile_id vs)))
         = map (\<lambda>i. (i, f (the (last_with_id i (vs @ [p])))))
             (ids_in_order (map profile_id (vs @ [p])))"
proof -
  have "od_setitem k (f p)
           (map (\<lambda>i. (i, f (the (last_with_id i vs)))) (ids_in_order (map profile_id vs)))
        = map (\<lambda>i. (i, if i = k then f p else f (the (last_with_id i vs))))
            (if k \<in> set (ids_in_order (map profile_id vs)) then ids_in_order (map profile_id vs)
             else ids_in_order (map profile_id vs) @ [k])"
    by (rule od_setitem_map) simp
  also have "(\<lambda>i. (i, if i = k then f p else f (the (last_with_id i vs))))
             = (\<lambda>i. (i, f (the (last_with_id i (vs @ [p])))))"
    using assms by (auto simp: last_with_id_snoc fun_eq_iff)
  also have "(if k \<in> set (ids_in_order (map profile_id vs)) then ids_in_order (map profile_id vs)
             else ids_in_order (map profile_id vs) @ [k])
             = ids_in_order (map profile_id (vs @ [p]))"
    using assms by (simp add: ids_in_order_snoc)
  finally show ?thesis .
qed

lemma hls_loop_state:
  "foldl (hls_profile_step C u he key_id key) (qp0, [], []) ps =
     (if ps = [] then qp0 else profile_query (profile_id (last ps)) key_id key qp0,
      map (\<lambda>i. (i, (\<lambda>p. (p, encode_mediaflow_proxy_url C u
                                (profile_query (profile_id p) key_id key qp0) he))
                     (the (last_with_id i (filter is_video ps)))))
        (ids_in_order (map profile_id (filter is_video ps))),
      map (\<lambda>i. (i, (\<lambda>p. (p, encode_mediaflow_proxy_url C u
                                (profile_query (profile_id p) key_id key qp0) he))
                     (the (last_with_id i (filter is_audio ps)))))
        (ids_in_order (map profile_id (filter is_audio ps))))"
proof (induction ps rule: rev_induct)
  case Nil
  show ?case by simp
next
  case (snoc p ps)
  let ?f = "\<lambda>p. (p, encode_mediaflow_proxy_url C u (profile_query (profile_id p) key_id key qp0) he)"
  let ?qp = "if ps = [] then qp0 else profile_query (profile_id (last ps)) key_id key qp0"
  have q: "profile_query (profile_id p) key_id key ?qp = profile_query (profile_id p) key_id key qp0"
    by (simp add: profile_query_absorbs)
  have q': "od_setitem ''key'' (or_empty key)
              (od_setitem ''key_id'' (or_empty key_id) (od_setitem ''profile_id'' (profile_id p) ?qp))
            = profile_query (profile_id p) key_id key qp0"
    using q by (simp only: profile_query_def)
  let ?F = "hls_profile_step C u he key_id key"
  have unroll: "foldl ?F (qp0, [], []) (ps @ [p]) = ?F (foldl ?F (qp0, [], []) ps) p"
    by (simp only: foldl_append foldl.simps)
  show ?case
  proof (cases "has_substring ''video'' (mimeType p)")
    case True
    then have k: "is_video p" "\<not> is_audio p" by (simp_all add: is_video_def is_audio_def)
    have b: "od_setitem (profile_id p) (?f p)
               (map (\<lambda>i. (i, ?f (the (last_with_id i (filter is_video ps)))))
                  (ids_in_order (map profile_id (filter is_video ps))))
             = map (\<lambda>i. (i, ?f (the (last_with_id i (filter is_video ps @ [p])))))
                 (ids_in_order (map profile_id (filter is_video ps @ [p])))"
      by (rule bucket_step) simp
    show ?thesis
      using True k b unfolding unroll snoc.IH by (simp add: hls_profile_step_def Let_def q' del: od_setitem.simps)
  next
    case False
    note nv = False
    show ?thesis
    proof (cases "has_substring ''audio'' (mimeType p)")
      case True
      then have k: "\<not> is_video p" "is_audio p" using nv by (simp_all add: is_video_def is_audio_def)
      have b: "od_setitem (profile_id p) (?f p)
               (map (\<lambda>i. (i, ?f (the (last_with_id i (filter is_audio ps)))))
                  (ids_in_order (map profile_id (filter is_audio ps))))
             = map (\<lambda>i. (i, ?f (the (last_with_id i (filter is_audio ps @ [p])))))
                 (ids_in_order (map profile_id (filter is_audio ps @ [p])))"
        by (rule bucket_step) simp
      show ?thesis
        using True nv k b unfolding unroll snoc.IH by (simp add: hls_profile_step_def Let_def q' del: od_setitem.simps)
    next
      case False
      then have k: "\<not> is_video p" "\<not> is_audio p" using nv by (simp_all add: is_video_def is_audio_def)
      show ?thesis
        using False nv k unfolding unroll snoc.IH by (simp add: hls_profile_step_def Let_def q' del: od_setitem.simps)
    qed
  qed
qed

lemma hls_buckets_emitted:
  "map snd (video_profiles_of (hls_buckets C req key_id key ps))
     = map (\<lambda>p. (p, playlist_url_of C req key_id key p)) (emitted_profiles is_video ps)"
  "map snd (audio_profiles_of (hls_buckets C req key_id key ps))
     = map (\<lambda>p. (p, playlist_url_of C req key_id key p)) (emitted_profiles is_audio ps)"
  by (simp_all add: hls_buckets_def Let_def hls_loop_state video_profiles_of_def
      audio_profiles_of_def emitted_profiles_def playlist_url_of_def comp_def)

lemma audio_lines_enumerate:
  "audio_lines n pus = map (\<lambda>(i, pu). audio_line i pu) (enumerate n pus)"
  by (induction pus arbitrary: n) auto

lemma audio_lines_map:
  "audio_lines n (map f ps) = map (\<lambda>(i, p). audio_line i (f p)) (enumerate n ps)"
  by (induction ps arbitrary: n) auto

lemma emitted_profiles_ids:
  "map profile_id (emitted_profiles kind ps) = ids_in_order (map profile_id (filter kind ps))"
proof -
  have "\<And>i. i \<in> set (ids_in_order (map profile_id (filter kind ps))) \<Longrightarrow>
          profile_id (the (last_with_id i (filter kind ps))) = i"
  proof -
    fix i assume "i \<in> set (ids_in_order (map profile_id (filter kind ps)))"
    then have "i \<in> profile_id ` set (filter kind ps)" by simp
    from last_with_id_Some [OF this] show "profile_id (the (last_with_id i (filter kind ps))) = i"
      by auto
  qed
  then have "map (\<lambda>i. profile_id (the (last_with_id i (filter kind ps))))
               (ids_in_order (map profile_id (filter kind ps)))
             = ids_in_order (map profile_id (filter kind ps))"
    by (rule map_idI)
  then show ?thesis
    by (simp add: emitted_profiles_def comp_def)
qed

lemma emitted_profiles_last:
  "map (\<lambda>p. last_with_id (profile_id p) (filter kind ps)) (emitted_profiles kind ps)
     = map Some (emitted_profiles kind ps)"
proof -
  have "\<And>i. i \<in> set (ids_in_order (map profile_id (filter kind ps))) \<Longrightarrow>
          last_with_id (profile_id (the (last_with_id i (filter kind ps)))) (filter kind ps)
            = Some (the (last_with_id i (filter kind ps)))"
  proof -
    fix i assume "i \<in> set (ids_in_order (map profile_id (filter kind ps)))"
    then have "i \<in> profile_id ` set (filter kind ps)" by simp
    from last_with_id_Some [OF this]
    show "last_with_id (profile_id (the (last_with_id i (filter kind ps)))) (filter kind ps)
            = Some (the (last_with_id i (filter kind ps)))"
      by auto
  qed
  then show ?thesis
    by (simp add: emitted_profiles_def comp_def)
qed

lemma length_emitted_profiles:
  "length (emitted_profiles kind ps) = card (profile_id ` set (filter kind ps))"
  by (simp add: emitted_profiles_def length_ids_in_order)

text \<open>
  C10, amended. \<open>build_hls\<close> returns the preamble, then one \<open>#EXT-X-MEDIA\<close> line for
  every distinct id among the audio profiles (mime type with \<open>audio\<close> and without
  \<open>video\<close>), then one \<open>#EXT-X-STREAM-INF\<close> record of two lines for every distinct id
  among the video profiles, each kind in the order of the ids' first occurrence.
  The rendition of an id is rendered from the last profile of its kind with that
  id, with that profile's playlist URL; the first audio line is the default one.
  So two profiles of the same kind sharing an id give one rendition, the last
  occurrence; profiles of different kinds sharing an id each give one.
\<close>

theorem build_hls_one_rendition_per_id_and_kind:
  \<open>build_hls C mpd req key_id key =
     join_lines
       ([''#EXTM3U'', ''#EXT-X-VERSION:6'']
        @ map (\<lambda>(n, p).
             ''#EXT-X-MEDIA:TYPE=AUDIO,GROUP-ID="audio",NAME="'' @ profile_id p
             @ ''",DEFAULT='' @ (if n = 0 then ''YES'' else ''NO'')
             @ '',AUTOSELECT='' @ (if n = 0 then ''YES'' else ''NO'')
             @ '',LANGUAGE="'' @ (case lang p of None \<Rightarrow> ''und'' | Some l \<Rightarrow> l)
             @ ''",URI="'' @ playlist_url_of C req key_id key p @ ''"'')
            (enumerate 0 (emitted_profiles is_audio (profiles mpd)))
        @ concat (map (\<lambda>p.
             [''#EXT-X-STREAM-INF:BANDWIDTH='' @ str_int (bandwidth p)
              @ '',RESOLUTION='' @ str_int (width p) @ ''x'' @ str_int (height p)
              @ '',CODECS="'' @ codecs p @ ''",FRAME-RATE='' @ frameRate p
              @ '',AUDIO="audio"'',
              playlist_url_of C req key_id key p])
            (emitted_profiles is_video (profiles mpd))))
   \<and> map profile_id (emitted_profiles is_audio (profiles mpd))
       = ids_in_order (map profile_id (filter is_audio (profiles mpd)))
   \<and> map profile_id (emitted_profiles is_video (profiles mpd))
       = ids_in_order (map profile_id (filter is_video (profiles mpd)))
   \<and> map (\<lambda>p. last_with_id (profile_id p) (filter is_audio (profiles mpd)))
         (emitted_profiles is_audio (profiles mpd))
       = map Some (emitted_profiles is_audio (profiles mpd))
   \<and> map (\<lambda>p. last_with_id (profile_id p) (filter is_video (profiles mpd)))
         (emitted_profiles is_video (profiles mpd))
       = map Some (emitted_profiles is_video (profiles mpd))
   \<and> distinct (map profile_id (emitted_profiles is_audio (profiles mpd)))
   \<and> distinct (map profile_id (emitted_profiles is_video (profiles mpd)))
   \<and> length (emitted_profiles is_audio (profiles mpd))
       = card (profile_id ` set (filter is_audio (profiles mpd)))
   \<and> length (emitted_profiles is_video (profiles mpd))
       = card (profile_id ` set (filter is_video (profiles mpd)))\<close>
proof -
  have out: \<open>build_hls C mpd req key_id key =
     join_lines
       ([''#EXTM3U'', ''#EXT-X-VERSION:6'']
        @ map (\<lambda>(n, p).
             ''#EXT-X-MEDIA:TYPE=AUDIO,GROUP-ID="audio",NAME="'' @ profile_id p
             @ ''",DEFAULT='' @ (if n = 0 then ''YES'' else ''NO'')
             @ '',AUTOSELECT='' @ (if n = 0 then ''YES'' else ''NO'')
             @ '',LANGUAGE="'' @ (case lang p of None \<Rightarrow> ''und'' | Some l \<Rightarrow> l)
             @ ''",URI="'' @ playlist_url_of C req key_id key p @ ''"'')
            (enumerate 0 (emitted_profiles is_audio (profiles mpd)))
        @ concat (map (\<lambda>p.
             [''#EXT-X-STREAM-INF:BANDWIDTH='' @ str_int (bandwidth p)
              @ '',RESOLUTION='' @ str_int (width p) @ ''x'' @ str_int (height p)
              @ '',CODECS="'' @ codecs p @ ''",FRAME-RATE='' @ frameRate p
              @ '',AUDIO="audio"'',
              playlist_url_of C req key_id key p])
            (emitted_profiles is_video (profiles mpd))))\<close>
    unfolding build_hls_def build_hls_lines_def Let_def hls_buckets_emitted
    by (simp add: audio_lines_map audio_line_def video_lines_def comp_def Let_def)
  have ids: "map profile_id (emitted_profiles is_audio (profiles mpd))
               = ids_in_order (map profile_id (filter is_audio (profiles mpd)))"
           "map profile_id (emitted_profiles is_video (profiles mpd))
               = ids_in_order (map profile_id (filter is_video (profiles mpd)))"
    by (rule emitted_profiles_ids)+
  have dist: "distinct (map profile_id (emitted_profiles is_audio (profiles mpd)))"
             "distinct (map profile_id (emitted_profiles is_video (profiles mpd)))"
    by (simp_all only: emitted_profiles_ids distinct_ids_in_order)
  show ?thesis
    using out ids dist
      emitted_profiles_last [of is_audio "profiles mpd"]
      emitted_profiles_last [of is_video "profiles mpd"]
      length_emitted_profiles [of is_audio "profiles mpd"]
      length_emitted_profiles [of is_video "profiles mpd"]
    by blast
qed

text \<open>
  C10, as the claim states it: when two profiles share an id, only one rendition,
  the last occurrence, appears. A video and an audio profile with the same id
  go to different dictionaries and both appear; and of a video profile followed
  by a subtitle profile with the same id, the earlier one (the video) appears.
\<close>

theorem build_hls_shared_id_across_kinds:
  \<open>build_hls plain_urls (vod shared_id_video_audio) example_request None None =
     ''#EXTM3U'' @ [CHR 0x0A] @ ''#EXT-X-VERSION:6'' @ [CHR 0x0A]
     @ ''#EXT-X-MEDIA:TYPE=AUDIO,GROUP-ID="audio",NAME="x",DEFAULT=YES,AUTOSELECT=YES,LANGUAGE="en",URI="http://proxy/playlist_endpoint?d=http://cdn.example/vod.mpd&profile_id=x&key_id=&key=&"''
     @ [CHR 0x0A]
     @ ''#EXT-X-STREAM-INF:BANDWIDTH=1000000,RESOLUTION=1280x720,CODECS="avc1.64001f",FRAME-RATE=30,AUDIO="audio"''
     @ [CHR 0x0A]
     @ ''http://proxy/playlist_endpoint?d=http://cdn.example/vod.mpd&profile_id=x&key_id=&key=&''
   \<and> build_hls plain_urls (vod shared_id_video_text) example_request None None =
     ''#EXTM3U'' @ [CHR 0x0A] @ ''#EXT-X-VERSION:6'' @ [CHR 0x0A]
     @ ''#EXT-X-STREAM-INF:BANDWIDTH=1000000,RESOLUTION=1280x720,CODECS="avc1.64001f",FRAME-RATE=30,AUDIO="audio"''
     @ [CHR 0x0A]
     @ ''http://proxy/playlist_endpoint?d=http://cdn.example/vod.mpd&profile_id=x&key_id=&key=&''\<close>
  by (simp add: build_hls_def build_hls_lines_def hls_buckets_def hls_profile_step_def
      shared_id_video_audio_def shared_id_video_text_def text_profile_def
      video_profile_def audio_profile_def vod_def plain_urls_def example_request_def
      video_profiles_of_def audio_profiles_of_def audio_line_def video_lines_def
      truthy_def or_empty_def str_int_def Let_def)

theorem build_hls_one_rendition_per_id_and_kind_witness:
  \<open>emitted_profiles is_audio (profiles (vod duplicate_ids)) = [audio_profile ''a1'' ''de'']
   \<and> emitted_profiles is_video (profiles (vod duplicate_ids)) = [video_profile ''v1'' 2000000 []]
   \<and> build_hls plain_urls (vod duplicate_ids) example_request None None =
     ''#EXTM3U'' @ [CHR 0x0A] @ ''#EXT-X-VERSION:6'' @ [CHR 0x0A]
     @ ''#EXT-X-MEDIA:TYPE=AUDIO,GROUP-ID="audio",NAME="a1",DEFAULT=YES,AUTOSELECT=YES,LANGUAGE="de",URI="http://proxy/playlist_endpoint?d=http://cdn.example/vod.mpd&profile_id=a1&key_id=&key=&"''
     @ [CHR 0x0A]
     @ ''#EXT-X-STREAM-INF:BANDWIDTH=2000000,RESOLUTION=1280x720,CODECS="avc1.64001f",FRAME-RATE=30,AUDIO="audio"''
     @ [CHR 0x0A]
     @ ''http://proxy/playlist_endpoint?d=http://cdn.example/vod.mpd&profile_id=v1&key_id=&key=&''\<close>
proof -
  have a: "emitted_profiles is_audio (profiles (vod duplicate_ids)) = [audio_profile ''a1'' ''de'']"
    by (simp add: emitted_profiles_def ids_in_order_def last_with_id_def is_audio_def vod_def
        duplicate_ids_def video_profile_def audio_profile_def)
  have v: "emitted_profiles is_video (profiles (vod duplicate_ids)) = [video_profile ''v1'' 2000000 []]"
    by (simp add: emitted_profiles_def ids_in_order_def last_with_id_def is_video_def vod_def
        duplicate_ids_def video_profile_def audio_profile_def)
  have ua: \<open>playlist_url_of plain_urls example_request None None (audio_profile ''a1'' ''de'')
             = ''http://proxy/playlist_endpoint?d=http://cdn.example/vod.mpd&profile_id=a1&key_id=&key=&''\<close>
    by (simp add: playlist_url_of_def profile_query_def plain_urls_def example_request_def
        audio_profile_def truthy_def or_empty_def)
  have uv: \<open>playlist_url_of plain_urls example_request None None (video_profile ''v1'' 2000000 [])
             = ''http://proxy/playlist_endpoint?d=http://cdn.example/vod.mpd&profile_id=v1&key_id=&key=&''\<close>
    by (simp add: playlist_url_of_def profile_query_def plain_urls_def example_request_def
        video_profile_def truthy_def or_empty_def)
  have la: "lang (audio_profile ''a1'' ''de'') = Some ''de''" "profile_id (audio_profile ''a1'' ''de'') = ''a1''"
    by (simp_all add: audio_profile_def)
  have lv: "bandwidth (video_profile ''v1'' 2000000 []) = 2000000"
           "width (video_profile ''v1'' 2000000 []) = 1280"
           "height (video_profile ''v1'' 2000000 []) = 720"
           "codecs (video_profile ''v1'' 2000000 []) = ''avc1.64001f''"
           "frameRate (video_profile ''v1'' 2000000 []) = ''30''"
    by (simp_all add: video_profile_def)
  have n: "str_int 2000000 = ''2000000''" "str_int 1280 = ''1280''" "str_int 720 = ''720''"
    by (simp_all add: str_int_def)
  show ?thesis
    using build_hls_one_rendition_per_id_and_kind
            [of plain_urls "vod duplicate_ids" example_request None None]
    by (simp add: a v ua uv la lv n enumerate_eq_zip)
qed

end
